theory Spec2Isabelle
  imports
    Main
    "HOL-Library.List_Lexorder"
    "HOL-Library.Product_Lexorder"
    "HOL-Library.Sublist"
    "HOL-Library.Multiset"
    "HOL-Library.Log_Nat"
begin

section \<open>JavaScript strings\<close>

text \<open>
  A JavaScript string is a sequence of UTF-16 code units, the numbers 0 to 65535; it is
  modelled as the list of these numbers. \<open>length\<close> counts code units, \<open>===\<close> and
  \<open>Array.prototype.includes\<close> compare code unit by code unit, and the default
  \<open>Array.prototype.sort()\<close> orders strings lexicographically by code unit, which is the
  order \<open>HOL-Library.List_Lexorder\<close> puts on lists of numbers. No operation of the plugin
  computes with a code unit, so nothing here depends on the 16-bit range.
  \<open>js\<close> embeds an ASCII literal.
\<close>

type_synonym jsstring = "int list"

definition js :: "string \<Rightarrow> jsstring" where
  "js s = map of_char s"

text \<open>
  The code points of a string, as \<open>String.prototype.codePointAt\<close> and string iteration
  read them: a high surrogate followed by a low surrogate is one code point, every other
  code unit (a lone surrogate too) is its own code point. This is what a code point
  order compares; it is not used by the plugin.
\<close>

fun codePoints :: "jsstring \<Rightarrow> int list" where
  "codePoints [] = []"
| "codePoints [u] = [u]"
| "codePoints (u # v # rest) =
     (if 0xD800 \<le> u \<and> u \<le> 0xDBFF \<and> 0xDC00 \<le> v \<and> v \<le> 0xDFFF
      then (0x10000 + (u - 0xD800) * 0x400 + (v - 0xDC00)) # codePoints rest
      else u # codePoints (v # rest))"

text \<open>
  \<open>String.prototype.trim\<close> removes the code units of WhiteSpace and LineTerminator from
  both ends: TAB, LF, VT, FF, CR, SPACE, NBSP, U+1680, U+2000 to U+200A, U+2028, U+2029,
  U+202F, U+205F, U+3000 and U+FEFF.
\<close>

definition isWhiteSpace :: "int \<Rightarrow> bool" where
  "isWhiteSpace u \<longleftrightarrow>
     u \<in> {0x09, 0x0A, 0x0B, 0x0C, 0x0D, 0x20, 0xA0, 0x1680, 0x2028, 0x2029,
          0x202F, 0x205F, 0x3000, 0xFEFF}
     \<or> (0x2000 \<le> u \<and> u \<le> 0x200A)"

definition trim :: "jsstring \<Rightarrow> jsstring" where
  "trim s = rev (dropWhile isWhiteSpace (rev (dropWhile isWhiteSpace s)))"

text \<open>
  \<open>input.split(',')\<close>: the segments between commas; a string without a comma is one
  segment, and the empty string splits into one empty segment.
\<close>

fun splitComma :: "jsstring \<Rightarrow> jsstring list" where
  "splitComma [] = [[]]"
| "splitComma (u # us) =
     (if u = 0x2C then [] # splitComma us
      else (case splitComma us of
              [] \<Rightarrow> [[u]]
            | seg # segs \<Rightarrow> (u # seg) # segs))"

text \<open>
  \<open>toLowerCase\<close> follows the Unicode case tables of the platform. The model takes it as
  a parameter \<open>lc\<close> of \<open>languageUpdate\<close>; \<open>asciiLowerCase\<close> is the function it is on ASCII
  strings, used to evaluate examples.
\<close>

definition asciiLowerCase :: "jsstring \<Rightarrow> jsstring" where
  "asciiLowerCase s = map (\<lambda>u. if 0x41 \<le> u \<and> u \<le> 0x5A then u + 0x20 else u) s"

section \<open>Canonicalisation of the configured lists\<close>

text \<open>
  \<^verbatim>\<open>escapeHtml = (html) => { if (!html) return html;
     return html.replace(/&/g, "&amp;").replace(/</g, "&lt;"); }\<close>
\<close>

definition replaceAmp :: "jsstring \<Rightarrow> jsstring" where
  "replaceAmp s = concat (map (\<lambda>u. if u = 0x26 then js ''&amp;'' else [u]) s)"

definition replaceLt :: "jsstring \<Rightarrow> jsstring" where
  "replaceLt s = concat (map (\<lambda>u. if u = 0x3C then js ''&lt;'' else [u]) s)"

definition escapeHtml :: "jsstring \<Rightarrow> jsstring" where
  "escapeHtml html = (if html = [] then html else replaceLt (replaceAmp html))"

text \<open>
  \<^verbatim>\<open>trimmed.replace(/`| /g, '_')\<close>: the regular expression matches the backtick (U+0060)
  and the space character (U+0020), nothing else.
\<close>

definition replaceBacktickSpace :: "jsstring \<Rightarrow> jsstring" where
  "replaceBacktickSpace s = map (\<lambda>u. if u = 0x60 \<or> u = 0x20 then 0x5F else u) s"

text \<open>
  \<open>parseLanguagesInput\<close>. The argument is \<open>None\<close> when the field is absent
  (\<open>undefined\<close>); \<open>!input\<close> also holds for the empty string.
\<close>

definition parseLanguagesInput :: "jsstring option \<Rightarrow> jsstring list" where
  "parseLanguagesInput input =
     (case input of
        None \<Rightarrow> []
      | Some i \<Rightarrow>
          if i = [] then []
          else
            let parts = take 300 (splitComma i)
            in filter (\<lambda>lang. length lang > 0)
                 (map (\<lambda>part. escapeHtml (replaceBacktickSpace (trim part))) parts))"

section \<open>Objects used as dictionaries\<close>

text \<open>
  \<open>statistics.languages\<close> and \<open>LanguageStats.dates\<close> are plain objects. An object is
  modelled by the list of its own properties in the order \<open>Object.keys\<close> and \<open>for ... in\<close>
  enumerate them: array-index keys (canonical decimal numerals below \<open>2^32 - 1\<close>) first, in
  ascending numeric order, then the other keys in the order they were created. In every
  state of the program the keys of an object are distinct. \<open>obj_set\<close> is the assignment
  \<open>o[k] = v\<close>: it keeps the place of an own property and creates a missing one.
\<close>

type_synonym 'v obj = "(jsstring \<times> 'v) list"

definition arrayIndex :: "jsstring \<Rightarrow> int option" where
  "arrayIndex k =
     (if k \<noteq> [] \<and> (\<forall>u \<in> set k. 0x30 \<le> u \<and> u \<le> 0x39) \<and> (hd k \<noteq> 0x30 \<or> length k = 1)
      then (let n = foldl (\<lambda>a u. 10 * a + (u - 48)) 0 k
            in if n < 4294967295 then Some n else None)
      else None)"

definition obj_keys :: "'v obj \<Rightarrow> jsstring list" where
  "obj_keys m = map fst m"

definition obj_get :: "'v obj \<Rightarrow> jsstring \<Rightarrow> 'v option" where
  "obj_get m k = map_of m k"

definition obj_delete :: "jsstring \<Rightarrow> 'v obj \<Rightarrow> 'v obj" where
  "obj_delete k m = filter (\<lambda>p. fst p \<noteq> k) m"

definition obj_create :: "jsstring \<Rightarrow> 'v \<Rightarrow> 'v obj \<Rightarrow> 'v obj" where
  "obj_create k v m =
     (case arrayIndex k of
        None \<Rightarrow> m @ [(k, v)]
      | Some i \<Rightarrow>
          let lower = (\<lambda>p. case arrayIndex (fst p) of Some j \<Rightarrow> j < i | None \<Rightarrow> False)
          in takeWhile lower m @ [(k, v)] @ dropWhile lower m)"

fun obj_update :: "jsstring \<Rightarrow> 'v \<Rightarrow> 'v obj \<Rightarrow> 'v obj" where
  "obj_update k v [] = []"
| "obj_update k v (p # ps) = (if fst p = k then (k, v) # ps else p # obj_update k v ps)"

definition obj_set :: "jsstring \<Rightarrow> 'v \<Rightarrow> 'v obj \<Rightarrow> 'v obj" where
  "obj_set k v m = (if k \<in> set (obj_keys m) then obj_update k v m else obj_create k v m)"

text \<open>
  A property read \<open>o[k]\<close> on a plain object finds the own property, and otherwise looks
  \<open>k\<close> up on \<open>Object.prototype\<close>, whose members (functions, and the \<open>__proto__\<close> accessor,
  which returns \<open>Object.prototype\<close> itself) are all truthy and have no property \<open>dates\<close>.
\<close>

definition objectPrototypeKeys :: "jsstring list" where
  "objectPrototypeKeys = map js
     [''constructor'', ''__defineGetter__'', ''__defineSetter__'', ''hasOwnProperty'',
      ''__lookupGetter__'', ''__lookupSetter__'', ''isPrototypeOf'', ''propertyIsEnumerable'',
      ''toString'', ''valueOf'', ''__proto__'', ''toLocaleString'']"

datatype 'v property = Own 'v | Inherited | Absent

definition obj_read :: "'v obj \<Rightarrow> jsstring \<Rightarrow> 'v property" where
  "obj_read m k =
     (case obj_get m k of
        Some v \<Rightarrow> Own v
      | None \<Rightarrow> if k \<in> set objectPrototypeKeys then Inherited else Absent)"

section \<open>Sorting\<close>

text \<open>
  \<open>Array.prototype.sort(comparefn)\<close> is stable. For a consistent comparator its result is
  the stable sort; insertion from the right computes it.
\<close>

fun insert_by :: "('a \<Rightarrow> 'a \<Rightarrow> int) \<Rightarrow> 'a \<Rightarrow> 'a list \<Rightarrow> 'a list" where
  "insert_by cmp x [] = [x]"
| "insert_by cmp x (y # ys) = (if cmp x y \<le> 0 then x # y # ys else y # insert_by cmp x ys)"

definition sort_by :: "('a \<Rightarrow> 'a \<Rightarrow> int) \<Rightarrow> 'a list \<Rightarrow> 'a list" where
  "sort_by cmp xs = foldr (insert_by cmp) xs []"

text \<open>
  \<open>xs.slice(0, n)\<close>: a negative \<open>n\<close> counts from the end, and the end is clamped to the
  length.
\<close>

definition slice0 :: "'a list \<Rightarrow> int \<Rightarrow> 'a list" where
  "slice0 xs n = take (nat (if n < 0 then int (length xs) + n else n)) xs"

section \<open>Dates\<close>

text \<open>
  A time value is a number of milliseconds since the epoch. \<open>isoDate t\<close> is
  \<open>new Date(t).toISOString().split('T')[0]\<close>, the UTC calendar day: \<open>YYYY-MM-DD\<close> for the
  years 0 to 9999, the year with a sign and six digits otherwise; \<open>toISOString\<close> throws a
  RangeError when \<open>t\<close> is outside the range of \<open>Date\<close>, which is \<open>None\<close> here.
\<close>

definition civilFromDays :: "int \<Rightarrow> int \<times> int \<times> int" where
  "civilFromDays z0 =
     (let z = z0 + 719468;
          era = z div 146097;
          doe = z mod 146097;
          yoe = (doe - doe div 1460 + doe div 36524 - doe div 146096) div 365;
          y = yoe + era * 400;
          doy = doe - (365 * yoe + yoe div 4 - yoe div 100);
          mp = (5 * doy + 2) div 153;
          d = doy - (153 * mp + 2) div 5 + 1;
          m = (if mp < 10 then mp + 3 else mp - 9)
      in (if m \<le> 2 then y + 1 else y, m, d))"

fun digits :: "nat \<Rightarrow> int \<Rightarrow> jsstring" where
  "digits 0 n = []"
| "digits (Suc w) n = digits w (n div 10) @ [48 + n mod 10]"

definition isoYear :: "int \<Rightarrow> jsstring" where
  "isoYear y =
     (if 0 \<le> y \<and> y \<le> 9999 then digits 4 y
      else (if y < 0 then 0x2D else 0x2B) # digits 6 \<bar>y\<bar>)"

definition isoDay :: "int \<Rightarrow> jsstring" where
  "isoDay day =
     (case civilFromDays day of
        (y, m, d) \<Rightarrow> isoYear y @ [0x2D] @ digits 2 m @ [0x2D] @ digits 2 d)"

definition isoDate :: "int \<Rightarrow> jsstring option" where
  "isoDate t =
     (if \<bar>t\<bar> > 8640000000000000 then None
      else Some (isoDay (t div 86400000)))"

section \<open>Numbers\<close>

text \<open>
  A JavaScript number is an IEEE 754 double. The counts of the statistics are whole
  numbers: a day count is a finite double with an integer value, modelled by that
  integer, and a \<open>totalCount\<close>, which is a sum of day counts, is such a double or an
  infinity. \<open>roundFinite x\<close> is the double nearest to the integer \<open>x\<close>, ties to the even
  significand, without the overflow: an integer up to \<open>2^53\<close> in magnitude is a double,
  a larger one is rounded to 53 significant bits. \<open>roundDouble\<close> adds the overflow: a
  rounded magnitude of \<open>2^1024\<close> or more is an infinity. \<open>jsAdd t n\<close> is \<open>t + n\<close> for a
  total \<open>t\<close> and a day count \<open>n\<close>: the exact sum, rounded.
\<close>

datatype number = Num int | Infinity | MinusInfinity

definition roundFinite :: "int \<Rightarrow> int" where
  "roundFinite x =
     (if \<bar>x\<bar> \<le> 9007199254740992 then x
      else
        let a = \<bar>x\<bar>;
            unit = 2 ^ nat (bitlen a - 53);
            q = a div unit;
            r = a mod unit;
            m = (if unit < 2 * r \<or> (2 * r = unit \<and> odd q) then q + 1 else q)
        in sgn x * (m * unit))"

definition roundDouble :: "int \<Rightarrow> number" where
  "roundDouble x =
     (let y = roundFinite x
      in if 1024 < bitlen \<bar>y\<bar> then (if x < 0 then MinusInfinity else Infinity)
         else Num y)"

fun jsAdd :: "number \<Rightarrow> int \<Rightarrow> number" where
  "jsAdd (Num t) n = roundDouble (t + n)"
| "jsAdd Infinity n = Infinity"
| "jsAdd MinusInfinity n = MinusInfinity"

text \<open>
  \<open>jsSubSign x y\<close> is the sign of the number \<open>x - y\<close> as \<open>sort\<close> reads the result of a
  comparator: the difference of two doubles has the sign of the exact difference, an
  infinity minus the same infinity is \<open>NaN\<close>, which \<open>sort\<close> takes for 0.
\<close>

fun jsSubSign :: "number \<Rightarrow> number \<Rightarrow> int" where
  "jsSubSign (Num x) (Num y) = sgn (x - y)"
| "jsSubSign Infinity Infinity = 0"
| "jsSubSign MinusInfinity MinusInfinity = 0"
| "jsSubSign Infinity y = 1"
| "jsSubSign x Infinity = - 1"
| "jsSubSign MinusInfinity y = - 1"
| "jsSubSign x MinusInfinity = 1"

section \<open>The plugin state\<close>

datatype SortMode = Custom | Frequency

record Config =
  sortMode :: SortMode
  customOrder :: jsstring
  frequencyTopCount :: int
  frequencyDaysRange :: int
  otherCustomLanguages :: jsstring
  excludedLanguages :: jsstring

record LanguageStats =
  totalCount :: number
  dates :: "int obj"

record Statistics =
  frequencyOrder :: "jsstring list"
  languages :: "LanguageStats obj"

text \<open>
  The fields of the plugin instance. \<open>config\<close> and \<open>tempConfig\<close> are two objects (each is
  made by a spread copy \<open>{ ...c }\<close> of strings and numbers), so they are two values here.
  \<open>savedConfig\<close> and \<open>savedStatistics\<close> are the documents last handed to \<open>saveData\<close>
  since the plugin was loaded, \<open>None\<close> when there was no such call.
\<close>

record Plugin =
  config :: Config
  tempConfig :: Config
  statistics :: Statistics
  cachedCustomOrderLanguages :: "jsstring list"
  cachedOtherCustomLanguages :: "jsstring list"
  cachedExcludedLanguages :: "jsstring list"
  savedConfig :: "Config option"
  savedStatistics :: "Statistics option"

datatype error = TypeError | RangeError

definition parseAndCacheLanguages :: "Plugin \<Rightarrow> Plugin" where
  "parseAndCacheLanguages s =
     s\<lparr>cachedCustomOrderLanguages := parseLanguagesInput (Some (customOrder (config s))),
       cachedOtherCustomLanguages := parseLanguagesInput (Some (otherCustomLanguages (config s))),
       cachedExcludedLanguages := parseLanguagesInput (Some (excludedLanguages (config s)))\<rparr>"

text \<open>
  \<open>onload\<close>: the stored configuration document may lack any field; \<open>||=\<close> puts the default
  where the field is absent or falsy (the number 0, the empty string).
\<close>

record StoredConfig =
  stored_sortMode :: "SortMode option"
  stored_customOrder :: "jsstring option"
  stored_frequencyTopCount :: "int option"
  stored_frequencyDaysRange :: "int option"
  stored_otherCustomLanguages :: "jsstring option"
  stored_excludedLanguages :: "jsstring option"

definition orDefault :: "int option \<Rightarrow> int \<Rightarrow> int" where
  "orDefault v d = (case v of None \<Rightarrow> d | Some n \<Rightarrow> if n = 0 then d else n)"

definition onload :: "StoredConfig option \<Rightarrow> Statistics option \<Rightarrow> Plugin" where
  "onload storedConfig storedStatistics =
     (let sc = (case storedConfig of
                  None \<Rightarrow> \<lparr>stored_sortMode = None, stored_customOrder = None,
                            stored_frequencyTopCount = None, stored_frequencyDaysRange = None,
                            stored_otherCustomLanguages = None, stored_excludedLanguages = None\<rparr>
                | Some c \<Rightarrow> c);
          c = \<lparr>sortMode = (case stored_sortMode sc of None \<Rightarrow> Frequency | Some m \<Rightarrow> m),
               customOrder = (case stored_customOrder sc of None \<Rightarrow> [] | Some x \<Rightarrow> x),
               frequencyTopCount = orDefault (stored_frequencyTopCount sc) 5,
               frequencyDaysRange = orDefault (stored_frequencyDaysRange sc) 30,
               otherCustomLanguages = (case stored_otherCustomLanguages sc of None \<Rightarrow> [] | Some x \<Rightarrow> x),
               excludedLanguages = (case stored_excludedLanguages sc of None \<Rightarrow> [] | Some x \<Rightarrow> x)\<rparr>
      in parseAndCacheLanguages
           \<lparr>config = c,
            tempConfig = c,
            statistics = (case storedStatistics of
                            None \<Rightarrow> \<lparr>frequencyOrder = [], languages = []\<rparr>
                          | Some st \<Rightarrow> st),
            cachedCustomOrderLanguages = [],
            cachedOtherCustomLanguages = [],
            cachedExcludedLanguages = [],
            savedConfig = None,
            savedStatistics = None\<rparr>)"

subsection \<open>The settings dialog\<close>

definition confirmCallback :: "Plugin \<Rightarrow> Plugin" where
  "confirmCallback s =
     parseAndCacheLanguages (s\<lparr>config := tempConfig s, savedConfig := Some (tempConfig s)\<rparr>)"

definition destroyCallback :: "Plugin \<Rightarrow> Plugin" where
  "destroyCallback s = s\<lparr>tempConfig := config s\<rparr>"

text \<open>
  The input listeners of \<open>buildSettingsUI\<close>. The two number fields carry the result of
  \<open>parseInt\<close>, \<open>None\<close> for \<open>NaN\<close>; a value outside the range is not stored.
\<close>

datatype SettingInput =
    SortModeChange SortMode
  | CustomOrderInput jsstring
  | FrequencyTopCountInput "int option"
  | FrequencyDaysRangeInput "int option"
  | OtherCustomLanguagesInput jsstring
  | ExcludedLanguagesInput jsstring

fun settingInput :: "SettingInput \<Rightarrow> Plugin \<Rightarrow> Plugin" where
  "settingInput (SortModeChange m) s = s\<lparr>tempConfig := (tempConfig s)\<lparr>sortMode := m\<rparr>\<rparr>"
| "settingInput (CustomOrderInput v) s = s\<lparr>tempConfig := (tempConfig s)\<lparr>customOrder := v\<rparr>\<rparr>"
| "settingInput (FrequencyTopCountInput v) s =
     (case v of
        None \<Rightarrow> s
      | Some n \<Rightarrow> if n \<ge> 1 \<and> n \<le> 15 then s\<lparr>tempConfig := (tempConfig s)\<lparr>frequencyTopCount := n\<rparr>\<rparr> else s)"
| "settingInput (FrequencyDaysRangeInput v) s =
     (case v of
        None \<Rightarrow> s
      | Some n \<Rightarrow> if n \<ge> 1 \<and> n \<le> 90 then s\<lparr>tempConfig := (tempConfig s)\<lparr>frequencyDaysRange := n\<rparr>\<rparr> else s)"
| "settingInput (OtherCustomLanguagesInput v) s =
     s\<lparr>tempConfig := (tempConfig s)\<lparr>otherCustomLanguages := v\<rparr>\<rparr>"
| "settingInput (ExcludedLanguagesInput v) s =
     s\<lparr>tempConfig := (tempConfig s)\<lparr>excludedLanguages := v\<rparr>\<rparr>"

section \<open>Usage statistics\<close>

text \<open>
  \<open>updateFrequencyOrder\<close>: the own keys of \<open>languages\<close>, sorted with the comparator
  \<open>(a, b) => languages[b].totalCount - languages[a].totalCount\<close>. The comparator is only
  applied to own keys, so the lookup always finds a record.
\<close>

definition totalCountOf :: "LanguageStats obj \<Rightarrow> jsstring \<Rightarrow> number" where
  "totalCountOf m k = (case obj_get m k of Some ls \<Rightarrow> totalCount ls | None \<Rightarrow> Num 0)"

definition updateFrequencyOrder :: "Statistics \<Rightarrow> Statistics" where
  "updateFrequencyOrder st =
     st\<lparr>frequencyOrder :=
          sort_by (\<lambda>a b. jsSubSign (totalCountOf (languages st) b) (totalCountOf (languages st) a))
            (obj_keys (languages st))\<rparr>"

text \<open>
  \<open>cleanupExpiredStatistics\<close>. The inner loop runs over the day entries of one language,
  deletes the entry of a day that is before the cutoff (string comparison) and adds the
  count of every other day to \<open>totalCount\<close>. The outer loop does so for every language and
  collects in \<open>languagesToRemove\<close> those whose total is zero; they are deleted after the
  loop, and \<open>updateFrequencyOrder\<close> runs last. The cutoff is computed first: when its date
  is out of range, \<open>toISOString\<close> throws before anything is changed.

  The time of the cutoff is computed in doubles. For a whole number of days the integer
  arithmetic below gives the same date: a product \<open>frequencyDaysRange * 86400000\<close> is a
  multiple of \<open>2^10\<close> and so a double up to \<open>2^63\<close> in magnitude, a difference within the
  range of \<open>Date\<close> is an integer below \<open>2^53\<close>, and rounding, which is monotone, takes no
  time outside that range into it.
\<close>

definition cutoffDateString :: "int \<Rightarrow> Config \<Rightarrow> jsstring option" where
  "cutoffDateString now c = isoDate (now - frequencyDaysRange c * 24 * 60 * 60 * 1000)"

definition cleanupDates :: "jsstring \<Rightarrow> int obj \<Rightarrow> int obj \<times> number" where
  "cleanupDates cutoff ds =
     foldl (\<lambda>(remaining, tc) (date, n).
              if date < cutoff then (obj_delete date remaining, tc)
              else (remaining, jsAdd tc n))
       (ds, Num 0) ds"

definition cleanupLanguage :: "jsstring \<Rightarrow> LanguageStats \<Rightarrow> LanguageStats" where
  "cleanupLanguage cutoff ls =
     (case cleanupDates cutoff (dates ls) of
        (ds, tc) \<Rightarrow> ls\<lparr>dates := ds, totalCount := tc\<rparr>)"

definition cleanupExpiredStatistics :: "int \<Rightarrow> Plugin \<Rightarrow> error + Plugin" where
  "cleanupExpiredStatistics now s =
     (case cutoffDateString now (config s) of
        None \<Rightarrow> Inl RangeError
      | Some cutoff \<Rightarrow>
          let cleaned = map (\<lambda>(language, ls). (language, cleanupLanguage cutoff ls))
                          (languages (statistics s));
              languagesToRemove = map fst (filter (\<lambda>(language, ls). totalCount ls = Num 0) cleaned);
              remaining = foldl (\<lambda>m language. obj_delete language m) cleaned languagesToRemove
          in Inr (s\<lparr>statistics := updateFrequencyOrder ((statistics s)\<lparr>languages := remaining\<rparr>)\<rparr>))"

text \<open>
  \<open>languageChange\<close>. \<open>recordLanguage\<close> is the body of \<open>if (language && language.trim())\<close>
  with the current date string given: when \<open>languages[language]\<close> is falsy a record is
  created; when it is an inherited member of \<open>Object.prototype\<close> the record is not
  created, \<open>languageStats.dates\<close> is \<open>undefined\<close> and reading \<open>[currentDate]\<close> from it
  throws a TypeError before anything is written. The two increments are additions of
  doubles; a finite double plus one is finite.
\<close>

definition recordLanguage :: "jsstring \<Rightarrow> Plugin \<Rightarrow> jsstring \<Rightarrow> error + Plugin" where
  "recordLanguage currentDate s language =
     (case obj_read (languages (statistics s)) language of
        Inherited \<Rightarrow> Inl TypeError
      | found \<Rightarrow>
          let languageStats = (case found of Own ls \<Rightarrow> ls | _ \<Rightarrow> \<lparr>totalCount = Num 0, dates = []\<rparr>);
              oldCount = (case obj_get (dates languageStats) currentDate of
                            None \<Rightarrow> 0 | Some n \<Rightarrow> n);
              languageStats' = languageStats\<lparr>dates := obj_set currentDate (roundFinite (oldCount + 1))
                                                       (dates languageStats),
                                            totalCount := jsAdd (totalCount languageStats) 1\<rparr>;
              st = updateFrequencyOrder
                     ((statistics s)\<lparr>languages := obj_set language languageStats' (languages (statistics s))\<rparr>)
          in Inr (s\<lparr>statistics := st, savedStatistics := Some st\<rparr>))"

text \<open>
  The handler reads the clock twice: \<open>now\<close> in \<open>getCurrentDateString\<close> and \<open>now'\<close> in
  \<open>cleanupExpiredStatistics\<close>. The result is \<open>Inr\<close> of the new state, or \<open>Inl\<close> of the
  exception thrown and the state it leaves.
\<close>

definition isBlank :: "jsstring \<Rightarrow> bool" where
  "isBlank language \<longleftrightarrow> language = [] \<or> trim language = []"

definition languageChange :: "int \<Rightarrow> int \<Rightarrow> Plugin \<Rightarrow> jsstring \<Rightarrow> (error \<times> Plugin) + Plugin" where
  "languageChange now now' s language =
     (let afterRecording =
            (if \<not> isBlank language then
               (case isoDate now of
                  None \<Rightarrow> Inl RangeError
                | Some currentDate \<Rightarrow> recordLanguage currentDate s language)
             else Inr s)
      in case afterRecording of
           Inl e \<Rightarrow> Inl (e, s)
         | Inr s1 \<Rightarrow>
             (case cleanupExpiredStatistics now' s1 of
                Inl e \<Rightarrow> Inl (e, s1)
              | Inr s2 \<Rightarrow> Inr s2))"

section \<open>Ordering the language list\<close>

text \<open>
  The comparator of the search ranking, with \<open>lowerCaseValue\<close> the lower-cased query.
\<close>

definition compareMatch :: "(jsstring \<Rightarrow> jsstring) \<Rightarrow> jsstring \<Rightarrow> jsstring \<Rightarrow> jsstring \<Rightarrow> int" where
  "compareMatch lc lowerCaseValue a b =
     (let aStartsWith = prefix lowerCaseValue (lc a);
          bStartsWith = prefix lowerCaseValue (lc b)
      in if aStartsWith \<and> bStartsWith then int (length a) - int (length b)
         else if aStartsWith then - 1
         else if bStartsWith then 1
         else 0)"

text \<open>
  \<open>matchPool\<close> is the array the search filters, \<open>languageUpdate\<close> the handler: it returns
  the array written back to \<open>event.detail.languages\<close> (\<open>langs\<close> is the array the event
  brings). The query \<open>v\<close> is \<open>None\<close> when the event carries none; \<open>truthy\<close> is the test
  \<open>if (value)\<close>, which the empty string fails as well.
\<close>

definition matchPool :: "Plugin \<Rightarrow> jsstring list \<Rightarrow> jsstring list" where
  "matchPool s langs =
     (let customOrderLanguages = cachedCustomOrderLanguages s;
          otherCustomLanguages = cachedOtherCustomLanguages s;
          excludedLanguages = cachedExcludedLanguages s
      in if sortMode (config s) = Custom then
           customOrderLanguages
           @ filter (\<lambda>lang. lang \<notin> set customOrderLanguages) otherCustomLanguages
           @ filter (\<lambda>lang. lang \<notin> set customOrderLanguages \<and> lang \<notin> set otherCustomLanguages
                            \<and> lang \<notin> set excludedLanguages) langs
         else
           otherCustomLanguages
           @ filter (\<lambda>lang. lang \<notin> set otherCustomLanguages \<and> lang \<notin> set excludedLanguages) langs)"

definition truthy :: "jsstring option \<Rightarrow> jsstring option" where
  "truthy v = (case v of None \<Rightarrow> None | Some q \<Rightarrow> if q = [] then None else Some q)"

definition languageUpdate ::
  "(jsstring \<Rightarrow> jsstring) \<Rightarrow> Plugin \<Rightarrow> jsstring list \<Rightarrow> jsstring option \<Rightarrow> jsstring list" where
  "languageUpdate lc s langs v =
     (let customOrderLanguages = cachedCustomOrderLanguages s;
          otherCustomLanguages = cachedOtherCustomLanguages s;
          excludedLanguages = cachedExcludedLanguages s
      in case truthy v of
           Some q \<Rightarrow>
             (let lowerCaseValue = lc q
              in sort_by (compareMatch lc lowerCaseValue)
                   (filter (\<lambda>item. sublist lowerCaseValue (lc item)) (matchPool s langs)))
         | None \<Rightarrow>
             if sortMode (config s) = Custom then
               customOrderLanguages
               @ sort (filter (\<lambda>lang. lang \<notin> set customOrderLanguages) otherCustomLanguages
                       @ filter (\<lambda>lang. lang \<notin> set customOrderLanguages
                                        \<and> lang \<notin> set otherCustomLanguages
                                        \<and> lang \<notin> set excludedLanguages) langs)
             else
               (let topFrequencyLanguages =
                      slice0 (frequencyOrder (statistics s)) (frequencyTopCount (config s))
                in topFrequencyLanguages
                   @ sort (filter (\<lambda>lang. lang \<notin> set topFrequencyLanguages) otherCustomLanguages
                           @ filter (\<lambda>lang. lang \<notin> set topFrequencyLanguages
                                            \<and> lang \<notin> set otherCustomLanguages
                                            \<and> lang \<notin> set excludedLanguages) langs)))"

section \<open>Predicates and example states used in the statements\<close>

text \<open>
  None of the definitions of this section is code of the plugin. \<open>matchRank\<close> is the key
  the comparator of the search sorts by: tokens that start with the query first, the
  shorter first among them.
\<close>

definition matchRank :: "(jsstring \<Rightarrow> jsstring) \<Rightarrow> jsstring \<Rightarrow> jsstring \<Rightarrow> nat \<times> nat" where
  "matchRank lc q t = (if prefix q (lc t) then (0, length t) else (1, 0))"

text \<open>
  The cached token lists are those of the committed configuration; \<open>onload\<close> and
  \<open>confirmCallback\<close> make it so and no handler changes it.
\<close>

definition cachesCurrent :: "Plugin \<Rightarrow> bool" where
  "cachesCurrent s \<longleftrightarrow>
     cachedCustomOrderLanguages s = parseLanguagesInput (Some (customOrder (config s)))
     \<and> cachedOtherCustomLanguages s = parseLanguagesInput (Some (otherCustomLanguages (config s)))
     \<and> cachedExcludedLanguages s = parseLanguagesInput (Some (excludedLanguages (config s)))"

text \<open>
  \<open>jsSum\<close> is the sum of day counts as the pruning loop adds them: from 0, in the order
  of the entries, each addition rounded. \<open>totalRank\<close> is the key the comparator of
  \<open>updateFrequencyOrder\<close> sorts by: the larger total first.
\<close>

definition jsSum :: "int list \<Rightarrow> number" where
  "jsSum ns = foldl jsAdd (Num 0) ns"

fun totalRank :: "number \<Rightarrow> int \<times> int" where
  "totalRank Infinity = (0, 0)"
| "totalRank (Num x) = (1, - x)"
| "totalRank MinusInfinity = (2, 0)"

text \<open>
  The invariant of the statistics: every \<open>totalCount\<close> is the sum of the stored day
  counts. \<open>safeCounts bound\<close>: no stored day count is negative and the day counts of a
  language add up to \<open>bound\<close> at most; up to \<open>maxExact\<close>, which is \<open>2^53\<close>, the additions
  of such counts are exact.
\<close>

definition maxExact :: int where
  "maxExact = 9007199254740992"

definition totalsMatch :: "Statistics \<Rightarrow> bool" where
  "totalsMatch st \<longleftrightarrow>
     (\<forall>p \<in> set (languages st). totalCount (snd p) = Num (sum_list (map snd (dates (snd p)))))"

definition safeCounts :: "int \<Rightarrow> Statistics \<Rightarrow> bool" where
  "safeCounts bound st \<longleftrightarrow>
     (\<forall>p \<in> set (languages st).
        (\<forall>e \<in> set (dates (snd p)). 0 \<le> snd e) \<and> sum_list (map snd (dates (snd p))) \<le> bound)"

text \<open>
  A surrogate code unit, and the test of the pruning loop: a day entry is kept when its
  day is not before the cutoff.
\<close>

definition isSurrogate :: "int \<Rightarrow> bool" where
  "isSurrogate u \<longleftrightarrow> 0xD800 \<le> u \<and> u \<le> 0xDFFF"

definition notExpired :: "jsstring \<Rightarrow> jsstring \<times> int \<Rightarrow> bool" where
  "notExpired cutoff p \<longleftrightarrow> \<not> fst p < cutoff"

text \<open>
  States the examples run on: each is the state after \<open>onload\<close> of a stored
  configuration or of stored statistics; \<open>staleState\<close> is the state after the selection
  of cobol on 2020-01-01 in a fresh plugin. \<open>shortWindowState\<close> has the statistics of
  \<open>prunedState\<close> and a window of 7 days; \<open>largeCountState\<close> has a day count of \<open>2^53\<close>.
\<close>

definition prunedState :: Plugin where
  "prunedState = onload None (Some \<lparr>frequencyOrder = [js ''old'', js ''python''],
      languages =
        [(js ''old'', \<lparr>totalCount = Num 4, dates = [(js ''2025-09-24'', 4)]\<rparr>),
         (js ''python'', \<lparr>totalCount = Num 4,
            dates = [(js ''2025-08-01'', 1), (js ''2025-09-25'', 1), (js ''2025-10-20'', 2)]\<rparr>)]\<rparr>)"

definition shortWindowState :: Plugin where
  "shortWindowState = onload (Some \<lparr>stored_sortMode = None, stored_customOrder = None,
      stored_frequencyTopCount = None, stored_frequencyDaysRange = Some 7,
      stored_otherCustomLanguages = None, stored_excludedLanguages = None\<rparr>)
     (Some \<lparr>frequencyOrder = [js ''old'', js ''python''],
      languages =
        [(js ''old'', \<lparr>totalCount = Num 4, dates = [(js ''2025-09-24'', 4)]\<rparr>),
         (js ''python'', \<lparr>totalCount = Num 4,
            dates = [(js ''2025-08-01'', 1), (js ''2025-09-25'', 1), (js ''2025-10-20'', 2)]\<rparr>)]\<rparr>)"

definition largeCountState :: Plugin where
  "largeCountState = onload None (Some \<lparr>frequencyOrder = [js ''go''],
      languages =
        [(js ''go'', \<lparr>totalCount = Num 9007199254740992,
            dates = [(js ''2025-10-24'', 9007199254740992), (js ''2025-10-25'', 1)]\<rparr>)]\<rparr>)"

definition customExcludedState :: Plugin where
  "customExcludedState = onload (Some \<lparr>stored_sortMode = Some Custom,
      stored_customOrder = Some (js ''js''),
      stored_frequencyTopCount = None, stored_frequencyDaysRange = None,
      stored_otherCustomLanguages = Some (js ''go''),
      stored_excludedLanguages = Some (js ''js, go, c'')\<rparr>) None"

definition frequencyExcludedState :: Plugin where
  "frequencyExcludedState = onload (Some \<lparr>stored_sortMode = Some Frequency,
      stored_customOrder = None,
      stored_frequencyTopCount = None, stored_frequencyDaysRange = None,
      stored_otherCustomLanguages = Some (js ''go''),
      stored_excludedLanguages = Some (js ''js, go, c'')\<rparr>)
     (Some \<lparr>frequencyOrder = [js ''js''],
        languages = [(js ''js'', \<lparr>totalCount = Num 2, dates = [(js ''2025-10-20'', 2)]\<rparr>)]\<rparr>)"

definition customState :: Plugin where
  "customState = onload (Some \<lparr>stored_sortMode = Some Custom,
      stored_customOrder = Some (js ''foo, bar''),
      stored_frequencyTopCount = None, stored_frequencyDaysRange = None,
      stored_otherCustomLanguages = Some (js ''zig, bar''),
      stored_excludedLanguages = Some (js ''cobol'')\<rparr>) None"

definition emptyCustomState :: Plugin where
  "emptyCustomState = onload (Some \<lparr>stored_sortMode = Some Custom,
      stored_customOrder = None,
      stored_frequencyTopCount = None, stored_frequencyDaysRange = None,
      stored_otherCustomLanguages = None,
      stored_excludedLanguages = None\<rparr>) None"

definition frequencyState :: Plugin where
  "frequencyState = onload None (Some \<lparr>frequencyOrder = [js ''rust'', js ''go''],
      languages =
        [(js ''rust'', \<lparr>totalCount = Num 3, dates = [(js ''2025-10-20'', 3)]\<rparr>),
         (js ''go'', \<lparr>totalCount = Num 1, dates = [(js ''2025-10-21'', 1)]\<rparr>)]\<rparr>)"

text \<open>
  The record \<open>recordLanguage\<close> stores for the language: the former record, or a fresh
  one, with one more use on the current day.
\<close>

definition recorded :: "jsstring \<Rightarrow> LanguageStats obj \<Rightarrow> jsstring \<Rightarrow> LanguageStats" where
  "recorded currentDate m language =
     (let languageStats = (case obj_get m language of
                             Some ls \<Rightarrow> ls | None \<Rightarrow> \<lparr>totalCount = Num 0, dates = []\<rparr>)
      in languageStats\<lparr>dates := obj_set currentDate
                                   (roundFinite ((case obj_get (dates languageStats) currentDate of
                                                    None \<Rightarrow> 0 | Some n \<Rightarrow> n) + 1))
                                   (dates languageStats),
                        totalCount := jsAdd (totalCount languageStats) 1\<rparr>)"

definition staleState :: Plugin where
  "staleState = (onload None None)
     \<lparr>statistics := \<lparr>frequencyOrder = [js ''cobol''],
                      languages = [(js ''cobol'', \<lparr>totalCount = Num 1, dates = [(js ''2020-01-01'', 1)]\<rparr>)]\<rparr>,
      savedStatistics := Some \<lparr>frequencyOrder = [js ''cobol''],
                      languages = [(js ''cobol'', \<lparr>totalCount = Num 1, dates = [(js ''2020-01-01'', 1)]\<rparr>)]\<rparr>\<rparr>"

section \<open>Sorting\<close>

lemma insert_by_insort_key:
  assumes "\<And>a b. cmp a b \<le> 0 \<longleftrightarrow> f a \<le> f b"
  shows "insert_by cmp x ys = insort_key f x ys"
  by (induction ys) (simp_all add: assms)

lemma sort_by_sort_key:
  assumes "\<And>a b. cmp a b \<le> 0 \<longleftrightarrow> f a \<le> f b"
  shows "sort_by cmp xs = sort_key f xs"
  unfolding sort_by_def
  by (induction xs) (simp_all add: insert_by_insort_key[OF assms])

lemma mset_insert_by: "mset (insert_by cmp x ys) = add_mset x (mset ys)"
  by (induction ys) simp_all

lemma mset_sort_by: "mset (sort_by cmp xs) = mset xs"
  unfolding sort_by_def by (induction xs) (simp_all add: mset_insert_by)

lemma set_sort_by: "set (sort_by cmp xs) = set xs"
  using mset_sort_by[of cmp xs] by (metis set_mset_mset)

lemma length_sort_by: "length (sort_by cmp xs) = length xs"
  using mset_sort_by[of cmp xs] by (metis size_mset)

lemma compareMatch_rank:
  "compareMatch lc q a b \<le> 0 \<longleftrightarrow> matchRank lc q a \<le> matchRank lc q b"
  by (auto simp: compareMatch_def matchRank_def Let_def)

lemma slice0_nonneg: "0 \<le> n \<Longrightarrow> slice0 xs n = take (nat n) xs"
  by (simp add: slice0_def)

lemma set_slice0: "set (slice0 xs n) \<subseteq> set xs"
  by (simp add: slice0_def set_take_subset)

section \<open>Objects\<close>

lemma set_obj_update: "k \<in> fst ` set m \<Longrightarrow> fst ` set (obj_update k v m) = fst ` set m"
  by (induction m) auto

lemma obj_update_mem: "k \<in> fst ` set m \<Longrightarrow> (k, v) \<in> set (obj_update k v m)"
  by (induction m) auto

lemma obj_update_others:
  "p \<in> set (obj_update k v m) \<Longrightarrow> p = (k, v) \<or> p \<in> set m"
  by (induction m) (auto split: if_splits)

lemma obj_create_index:
  "arrayIndex k = Some i \<Longrightarrow>
     obj_create k v m =
       takeWhile (\<lambda>p. case arrayIndex (fst p) of Some j \<Rightarrow> j < i | None \<Rightarrow> False) m
       @ [(k, v)]
       @ dropWhile (\<lambda>p. case arrayIndex (fst p) of Some j \<Rightarrow> j < i | None \<Rightarrow> False) m"
  by (simp add: obj_create_def Let_def)

lemma set_take_drop_While: "set (takeWhile P m @ [x] @ dropWhile P m) = insert x (set m)"
proof -
  have "set (takeWhile P m) \<union> set (dropWhile P m) = set m"
    by (metis set_append takeWhile_dropWhile_id)
  then show ?thesis by auto
qed

lemma set_obj_create: "set (obj_create k v m) = insert (k, v) (set m)"
proof (cases "arrayIndex k")
  case None
  then show ?thesis by (simp add: obj_create_def)
next
  case (Some i)
  show ?thesis
    unfolding obj_create_index[OF Some] by (rule set_take_drop_While)
qed

lemma obj_set_mem: "(k, v) \<in> set (obj_set k v m)"
  by (simp add: obj_set_def obj_keys_def obj_update_mem set_obj_create)

lemma obj_set_others: "p \<in> set (obj_set k v m) \<Longrightarrow> p = (k, v) \<or> p \<in> set m"
  by (auto simp: obj_set_def set_obj_create dest: obj_update_others split: if_splits)

lemma keys_obj_set: "set (obj_keys (obj_set k v m)) = insert k (set (obj_keys m))"
  by (auto simp: obj_set_def obj_keys_def set_obj_update set_obj_create)

lemma foldl_obj_delete:
  "foldl (\<lambda>m l. obj_delete l m) m ks = filter (\<lambda>p. fst p \<notin> set ks) m"
  by (induction ks arbitrary: m) (auto simp: obj_delete_def intro!: filter_cong)

lemma sum_obj_update:
  fixes m :: "int obj"
  shows "map_of m k = Some old \<Longrightarrow>
     sum_list (map snd (obj_update k v m)) = sum_list (map snd m) - old + v"
  by (induction m) (auto split: if_splits)

lemma sum_take_drop_While:
  fixes m :: "int obj"
  shows "sum_list (map snd (takeWhile P m @ [x] @ dropWhile P m)) = sum_list (map snd m) + snd x"
proof -
  have "sum_list (map snd (takeWhile P m)) + sum_list (map snd (dropWhile P m))
          = sum_list (map snd (takeWhile P m @ dropWhile P m))"
    by (simp del: takeWhile_dropWhile_id)
  then show ?thesis by simp
qed

lemma sum_obj_create:
  fixes m :: "int obj"
  shows "sum_list (map snd (obj_create k v m)) = sum_list (map snd m) + v"
proof (cases "arrayIndex k")
  case None
  then show ?thesis by (simp add: obj_create_def)
next
  case (Some i)
  show ?thesis
    unfolding obj_create_index[OF Some] by (simp only: sum_take_drop_While snd_conv)
qed

lemma sum_obj_set:
  fixes m :: "int obj"
  shows "sum_list (map snd (obj_set k ((case obj_get m k of None \<Rightarrow> 0 | Some n \<Rightarrow> n) + 1) m))
           = sum_list (map snd m) + 1"
proof (cases "map_of m k")
  case None
  then have "k \<notin> set (obj_keys m)"
    by (simp add: obj_keys_def map_of_eq_None_iff)
  with None show ?thesis
    by (simp add: obj_set_def obj_get_def sum_obj_create)
next
  case (Some old)
  then have "k \<in> set (obj_keys m)"
    by (metis obj_keys_def map_of_eq_None_iff option.distinct(1) set_map)
  with Some show ?thesis
    by (simp add: obj_set_def obj_get_def sum_obj_update)
qed

section \<open>Numbers\<close>

lemma roundFinite_exact: "\<bar>x\<bar> \<le> maxExact \<Longrightarrow> roundFinite x = x"
  by (simp add: roundFinite_def maxExact_def)

lemma roundDouble_exact:
  assumes "\<bar>x\<bar> \<le> maxExact"
  shows "roundDouble x = Num x"
proof -
  from assms have "\<bar>x\<bar> < 2 ^ nat 1024"
    by (simp add: maxExact_def)
  then have "bitlen \<bar>x\<bar> \<le> 1024"
    by (simp add: bitlen_le_iff_power)
  with assms show ?thesis
    by (simp add: roundDouble_def roundFinite_def maxExact_def)
qed

lemma roundDouble_examples:
  "roundDouble 9007199254740993 = Num 9007199254740992"
  "roundDouble 9007199254740994 = Num 9007199254740994"
  "roundDouble 9007199254740995 = Num 9007199254740996"
  "roundDouble (- 9007199254740995) = Num (- 9007199254740996)"
  "roundDouble (10 ^ 30) = Num 1000000000000000019884624838656"
  by code_simp+

lemma roundDouble_largest: "roundDouble (2 ^ 1024 - 2 ^ 970 - 1) = Num (2 ^ 1024 - 2 ^ 971)"
  by code_simp

lemma roundDouble_overflow: "roundDouble (2 ^ 1024 - 2 ^ 970) = Infinity"
  by code_simp

lemma foldl_jsAdd_exact:
  assumes "\<forall>x \<in> set xs. 0 \<le> x" "0 \<le> t" "t + sum_list xs \<le> maxExact"
  shows "foldl jsAdd (Num t) xs = Num (t + sum_list xs)"
  using assms
proof (induction xs arbitrary: t)
  case Nil
  then show ?case by simp
next
  case (Cons x xs)
  have nn: "0 \<le> sum_list xs"
    using Cons.prems(1) by (simp add: sum_list_nonneg)
  have x: "0 \<le> x"
    using Cons.prems(1) by simp
  from Cons.prems(2,3) nn x have "\<bar>t + x\<bar> \<le> maxExact"
    by simp
  then have step: "jsAdd (Num t) x = Num (t + x)"
    by (simp add: roundDouble_exact)
  have "foldl jsAdd (Num (t + x)) xs = Num (t + x + sum_list xs)"
  proof (rule Cons.IH)
    show "\<forall>x \<in> set xs. 0 \<le> x" using Cons.prems(1) by simp
    show "0 \<le> t + x" using Cons.prems(2) x by simp
    show "t + x + sum_list xs \<le> maxExact" using Cons.prems(3) by simp
  qed
  with step show ?case by (simp add: add.assoc)
qed

lemma jsSum_exact:
  assumes "\<forall>x \<in> set xs. 0 \<le> x" "sum_list xs \<le> maxExact"
  shows "jsSum xs = Num (sum_list xs)"
  unfolding jsSum_def using foldl_jsAdd_exact[OF assms(1), of 0] assms(2) by simp

lemma jsSubSign_rank: "jsSubSign y x \<le> 0 \<longleftrightarrow> totalRank x \<le> totalRank y"
  by (cases x; cases y) (auto simp: sgn_if)

section \<open>Dates\<close>

lemma cutoff_day:
  assumes "cutoffDateString now c = Some cutoff"
  shows "cutoff = isoDay (now div 86400000 - frequencyDaysRange c)"
proof -
  have "now - frequencyDaysRange c * 24 * 60 * 60 * 1000
          = now + (- frequencyDaysRange c) * 86400000"
    by simp
  then have "(now - frequencyDaysRange c * 24 * 60 * 60 * 1000) div 86400000
          = now div 86400000 - frequencyDaysRange c"
    by simp
  with assms show ?thesis
    by (simp add: cutoffDateString_def isoDate_def split: if_splits)
qed

section \<open>Pruning\<close>

lemma cleanupDates_foldl:
  "foldl (\<lambda>(remaining, tc) (date, n).
              if date < cutoff then (obj_delete date remaining, tc)
              else (remaining, jsAdd tc n)) (r, t) ds
   = (filter (\<lambda>p. fst p \<notin> {d \<in> fst ` set ds. d < cutoff}) r,
      foldl jsAdd t (map snd (filter (notExpired cutoff) ds)))"
proof (induction ds arbitrary: r t)
  case Nil
  then show ?case by simp
next
  case (Cons p ds)
  obtain d n where p: "p = (d, n)" by (cases p)
  show ?case
    unfolding p
    by (auto simp: Cons.IH obj_delete_def notExpired_def intro!: filter_cong)
qed

lemma cleanupDates_eq:
  "cleanupDates cutoff ds =
     (filter (notExpired cutoff) ds, jsSum (map snd (filter (notExpired cutoff) ds)))"
  unfolding cleanupDates_def cleanupDates_foldl jsSum_def
  by (auto simp: notExpired_def intro!: filter_cong)

lemma cleanupLanguage_eq:
  "cleanupLanguage cutoff ls =
     ls\<lparr>dates := filter (notExpired cutoff) (dates ls),
        totalCount := jsSum (map snd (filter (notExpired cutoff) (dates ls)))\<rparr>"
  by (simp add: cleanupLanguage_def cleanupDates_eq)

lemma cleanup_Some:
  assumes "cutoffDateString now (config s) = Some cutoff"
  shows "cleanupExpiredStatistics now s =
     Inr (s\<lparr>statistics := updateFrequencyOrder ((statistics s)\<lparr>languages :=
            filter (\<lambda>p. fst p \<notin> fst ` {q \<in> set (languages (statistics s)).
                             jsSum (map snd (filter (notExpired cutoff) (dates (snd q)))) = Num 0})
              (map (\<lambda>p. (fst p, cleanupLanguage cutoff (snd p))) (languages (statistics s)))\<rparr>)\<rparr>)"
proof -
  define cleaned where
    "cleaned = map (\<lambda>(language, ls). (language, cleanupLanguage cutoff ls)) (languages (statistics s))"
  define toRemove where
    "toRemove = map fst (filter (\<lambda>(language, ls). totalCount ls = Num 0) cleaned)"
  have c: "cleaned = map (\<lambda>p. (fst p, cleanupLanguage cutoff (snd p))) (languages (statistics s))"
    by (simp add: cleaned_def case_prod_unfold)
  have k: "set toRemove = fst ` {q \<in> set (languages (statistics s)).
                     jsSum (map snd (filter (notExpired cutoff) (dates (snd q)))) = Num 0}"
    unfolding toRemove_def c by (force simp: cleanupLanguage_eq)
  have "cleanupExpiredStatistics now s =
          Inr (s\<lparr>statistics := updateFrequencyOrder
                 ((statistics s)\<lparr>languages := foldl (\<lambda>m l. obj_delete l m) cleaned toRemove\<rparr>)\<rparr>)"
    unfolding cleanupExpiredStatistics_def assms cleaned_def toRemove_def
    by (simp add: Let_def)
  then show ?thesis
    unfolding foldl_obj_delete k c .
qed

lemma cleanup_None:
  "cutoffDateString now (config s) = None \<Longrightarrow> cleanupExpiredStatistics now s = Inl RangeError"
  by (simp add: cleanupExpiredStatistics_def)

lemma frequencyOrder_update:
  "frequencyOrder (updateFrequencyOrder st) =
     sort_key (\<lambda>k. totalRank (totalCountOf (languages st) k)) (obj_keys (languages st))"
  unfolding updateFrequencyOrder_def
  by (simp add: sort_by_sort_key[where f = "\<lambda>k. totalRank (totalCountOf (languages st) k)"]
        jsSubSign_rank)

lemma languages_update [simp]: "languages (updateFrequencyOrder st) = languages st"
  by (simp add: updateFrequencyOrder_def)

lemma updateFrequencyOrder_idem:
  "updateFrequencyOrder (updateFrequencyOrder st) = updateFrequencyOrder st"
  by (simp add: updateFrequencyOrder_def)

lemma cleanup_entries:
  assumes "cutoffDateString now (config s) = Some cutoff"
      and "cleanupExpiredStatistics now s = Inr s'"
      and "p \<in> set (languages (statistics s'))"
  shows "\<exists>ls. (fst p, ls) \<in> set (languages (statistics s))
           \<and> dates (snd p) = filter (notExpired cutoff) (dates ls)
           \<and> totalCount (snd p) = jsSum (map snd (dates (snd p)))
           \<and> totalCount (snd p) \<noteq> Num 0"
proof -
  from assms(2,3) obtain q where q: "q \<in> set (languages (statistics s))"
      and p: "p = (fst q, cleanupLanguage cutoff (snd q))"
      and keep: "fst p \<notin> fst ` {q \<in> set (languages (statistics s)).
                     jsSum (map snd (filter (notExpired cutoff) (dates (snd q)))) = Num 0}"
    unfolding cleanup_Some[OF assms(1)] by auto
  from keep q p have "jsSum (map snd (filter (notExpired cutoff) (dates (snd q)))) \<noteq> Num 0"
    by force
  with q p show ?thesis
    by (intro exI[of _ "snd q"]) (simp add: cleanupLanguage_eq)
qed

lemma cleanup_removed:
  assumes "cutoffDateString now (config s) = Some cutoff"
      and "cleanupExpiredStatistics now s = Inr s'"
      and "q \<in> set (languages (statistics s))"
      and "jsSum (map snd (filter (notExpired cutoff) (dates (snd q)))) = Num 0"
  shows "fst q \<notin> set (obj_keys (languages (statistics s')))"
  using assms(2-4) unfolding cleanup_Some[OF assms(1)]
  by (auto simp: obj_keys_def)

lemma cleanup_languages:
  assumes "cutoffDateString now (config s) = Some cutoff"
      and "cleanupExpiredStatistics now s = Inr s'"
  shows "languages (statistics s') =
           filter (\<lambda>p. fst p \<notin> fst ` {q \<in> set (languages (statistics s)).
                             jsSum (map snd (filter (notExpired cutoff) (dates (snd q)))) = Num 0})
             (map (\<lambda>p. (fst p, cleanupLanguage cutoff (snd p))) (languages (statistics s)))"
  using assms(2) unfolding cleanup_Some[OF assms(1)] by auto

lemma cleanup_distinct:
  assumes "cutoffDateString now (config s) = Some cutoff"
      and "cleanupExpiredStatistics now s = Inr s'"
      and "distinct (obj_keys (languages (statistics s)))"
  shows "languages (statistics s') =
           filter (\<lambda>p. totalCount (snd p) \<noteq> Num 0)
             (map (\<lambda>p. (fst p, cleanupLanguage cutoff (snd p))) (languages (statistics s)))"
proof -
  define R where "R = fst ` {q \<in> set (languages (statistics s)).
                     jsSum (map snd (filter (notExpired cutoff) (dates (snd q)))) = Num 0}"
  have iff: "fst p \<notin> R \<longleftrightarrow> jsSum (map snd (filter (notExpired cutoff) (dates (snd p)))) \<noteq> Num 0"
    if "p \<in> set (languages (statistics s))" for p
  proof -
    have uniq: "q = p" if "q \<in> set (languages (statistics s))" "fst q = fst p" for q
      using that \<open>p \<in> set (languages (statistics s))\<close> assms(3)
      by (metis obj_keys_def eq_key_imp_eq_value prod.collapse)
    show ?thesis
    proof
      assume n: "fst p \<notin> R"
      show "jsSum (map snd (filter (notExpired cutoff) (dates (snd p)))) \<noteq> Num 0"
      proof
        assume "jsSum (map snd (filter (notExpired cutoff) (dates (snd p)))) = Num 0"
        with that have "fst p \<in> R"
          unfolding R_def by blast
        with n show False by blast
      qed
    next
      assume nz: "jsSum (map snd (filter (notExpired cutoff) (dates (snd p)))) \<noteq> Num 0"
      show "fst p \<notin> R"
      proof
        assume "fst p \<in> R"
        then obtain q where "q \<in> set (languages (statistics s))" "fst q = fst p"
            "jsSum (map snd (filter (notExpired cutoff) (dates (snd q)))) = Num 0"
          unfolding R_def by force
        with uniq nz show False by blast
      qed
    qed
  qed
  have "filter (\<lambda>p. fst p \<notin> R)
          (map (\<lambda>p. (fst p, cleanupLanguage cutoff (snd p))) (languages (statistics s)))
        = filter (\<lambda>p. totalCount (snd p) \<noteq> Num 0)
          (map (\<lambda>p. (fst p, cleanupLanguage cutoff (snd p))) (languages (statistics s)))"
  proof (rule filter_cong[OF refl])
    fix x
    assume "x \<in> set (map (\<lambda>p. (fst p, cleanupLanguage cutoff (snd p))) (languages (statistics s)))"
    then obtain p where p: "p \<in> set (languages (statistics s))"
        "x = (fst p, cleanupLanguage cutoff (snd p))"
      by auto
    show "(fst x \<notin> R) = (totalCount (snd x) \<noteq> Num 0)"
      using iff[OF p(1)] by (simp add: p(2) cleanupLanguage_eq)
  qed
  then show ?thesis
    unfolding cleanup_languages[OF assms(1,2)] R_def .
qed

lemma cleanup_survives:
  assumes "cutoffDateString now (config s) = Some cutoff"
      and "cleanupExpiredStatistics now s = Inr s'"
      and "distinct (obj_keys (languages (statistics s)))"
      and "q \<in> set (languages (statistics s))"
      and "jsSum (map snd (filter (notExpired cutoff) (dates (snd q)))) \<noteq> Num 0"
  shows "(fst q, cleanupLanguage cutoff (snd q)) \<in> set (languages (statistics s'))"
proof -
  from assms(4) have "(fst q, cleanupLanguage cutoff (snd q))
      \<in> set (map (\<lambda>p. (fst p, cleanupLanguage cutoff (snd p))) (languages (statistics s)))"
    by force
  moreover have "totalCount (cleanupLanguage cutoff (snd q)) \<noteq> Num 0"
    using assms(5) by (simp add: cleanupLanguage_eq)
  ultimately show ?thesis
    unfolding cleanup_distinct[OF assms(1-3)] by simp
qed

lemma cleanup_order:
  assumes "cleanupExpiredStatistics now s = Inr s'"
  shows "statistics s' = updateFrequencyOrder (statistics s')"
  using assms
  by (cases "cutoffDateString now (config s)")
     (auto simp: cleanup_None cleanup_Some updateFrequencyOrder_idem)

lemma cleanup_config:
  assumes "cleanupExpiredStatistics now s = Inr s'"
  shows "config s' = config s"
  using assms
  by (cases "cutoffDateString now (config s)")
     (auto simp: cleanup_None cleanup_Some)

lemma frequencyOrder_mset:
  "mset (frequencyOrder (updateFrequencyOrder st)) = mset (obj_keys (languages st))"
  by (simp add: frequencyOrder_update)

lemma frequencyOrder_sorted:
  "sorted_wrt (\<lambda>a b. jsSubSign (totalCountOf (languages st) b) (totalCountOf (languages st) a) \<le> 0)
     (frequencyOrder (updateFrequencyOrder st))"
proof -
  have "sorted (map (\<lambda>k. totalRank (totalCountOf (languages st) k))
                  (frequencyOrder (updateFrequencyOrder st)))"
    unfolding frequencyOrder_update by (rule sorted_sort_key)
  then show ?thesis
    by (simp add: sorted_map jsSubSign_rank)
qed

section \<open>Claims about the usage statistics\<close>

text \<open>
  Claim C7, as stated, fails in one point: the \<open>totalCount\<close> that pruning recomputes is
  the sum of the remaining day counts as JavaScript adds them, in doubles. For the two
  remaining day counts \<open>2^53\<close> and 1 it is \<open>2^53\<close>, and their sum is \<open>2^53 + 1\<close>.
\<close>

theorem pruned_total_is_rounded:
  "map_sum id
     (\<lambda>s'. map (\<lambda>p. (fst p, totalCount (snd p), sum_list (map snd (dates (snd p)))))
              (languages (statistics s')))
     (cleanupExpiredStatistics 1761350400000 largeCountState)
   = Inr [(js ''go'', Num 9007199254740992, 9007199254740993)]"
  by code_simp

text \<open>
  Claim C7, amended. The cutoff of \<open>cleanupExpiredStatistics\<close> at the time \<open>now\<close> is the
  UTC calendar day \<open>frequencyDaysRange\<close> days before the day of \<open>now\<close>; the function
  throws only when the time of the cutoff is outside the range of \<open>Date\<close>. Otherwise it
  returns, and in the state it leaves: every day entry kept is not before the cutoff day
  (an entry on the cutoff day itself is kept), the entries of a language are its former
  entries without the expired ones, its \<open>totalCount\<close> is the sum of the counts kept as
  the loop adds them, which is their exact sum when no count is negative and the sum
  is \<open>2^53\<close> at most, and is not zero; every language whose recomputed total is zero is
  gone from \<open>languages\<close> and from \<open>frequencyOrder\<close>, every other language is kept (keys
  being distinct, as they are in an object), nothing but the statistics is changed, and
  \<open>frequencyOrder\<close> is the order recomputed from the final \<open>languages\<close>: a permutation
  of its keys in which no language is followed by one of a larger \<open>totalCount\<close>.
\<close>

theorem cleanupExpiredStatistics_prunes:
  "case isoDate (now - frequencyDaysRange (config s) * 24 * 60 * 60 * 1000) of
     None \<Rightarrow> cleanupExpiredStatistics now s = Inl RangeError
   | Some cutoff \<Rightarrow>
       cutoff = isoDay (now div 86400000 - frequencyDaysRange (config s))
       \<and> (\<exists>s'. cleanupExpiredStatistics now s = Inr s'
          \<and> (\<forall>p \<in> set (languages (statistics s')).
                (\<forall>e \<in> set (dates (snd p)). \<not> fst e < cutoff)
              \<and> (\<exists>ls. (fst p, ls) \<in> set (languages (statistics s))
                       \<and> dates (snd p) = filter (\<lambda>e. \<not> fst e < cutoff) (dates ls))
              \<and> totalCount (snd p) = jsSum (map snd (dates (snd p)))
              \<and> ((\<forall>e \<in> set (dates (snd p)). 0 \<le> snd e)
                   \<and> sum_list (map snd (dates (snd p))) \<le> maxExact
                  \<longrightarrow> totalCount (snd p) = Num (sum_list (map snd (dates (snd p)))))
              \<and> totalCount (snd p) \<noteq> Num 0)
          \<and> (\<forall>q \<in> set (languages (statistics s)).
                (jsSum (map snd (filter (\<lambda>e. \<not> fst e < cutoff) (dates (snd q)))) = Num 0
                 \<longrightarrow> fst q \<notin> set (obj_keys (languages (statistics s')))
                     \<and> fst q \<notin> set (frequencyOrder (statistics s')))
              \<and> (distinct (obj_keys (languages (statistics s)))
                   \<and> jsSum (map snd (filter (\<lambda>e. \<not> fst e < cutoff) (dates (snd q)))) \<noteq> Num 0
                 \<longrightarrow> (fst q, cleanupLanguage cutoff (snd q)) \<in> set (languages (statistics s'))
                     \<and> fst q \<in> set (frequencyOrder (statistics s'))))
          \<and> (distinct (obj_keys (languages (statistics s)))
                \<longrightarrow> languages (statistics s') =
                      filter (\<lambda>p. totalCount (snd p) \<noteq> Num 0)
                        (map (\<lambda>p. (fst p, cleanupLanguage cutoff (snd p))) (languages (statistics s))))
          \<and> s' = s\<lparr>statistics := statistics s'\<rparr>
          \<and> statistics s' = updateFrequencyOrder (statistics s')
          \<and> mset (frequencyOrder (statistics s')) = mset (obj_keys (languages (statistics s')))
          \<and> sorted_wrt (\<lambda>a b. jsSubSign (totalCountOf (languages (statistics s')) b)
                                        (totalCountOf (languages (statistics s')) a) \<le> 0)
               (frequencyOrder (statistics s')))"
proof (cases "cutoffDateString now (config s)")
  case None
  then show ?thesis by (simp add: cleanup_None cutoffDateString_def)
next
  case (Some cutoff)
  then have iso: "isoDate (now - frequencyDaysRange (config s) * 24 * 60 * 60 * 1000) = Some cutoff"
    by (simp add: cutoffDateString_def)
  note day = cutoff_day[OF Some]
  obtain s' where s': "cleanupExpiredStatistics now s = Inr s'"
    using cleanup_Some[OF Some] by blast
  have ne: "(\<lambda>e. \<not> fst e < cutoff) = notExpired cutoff"
    by (simp add: notExpired_def fun_eq_iff)
  note ord = cleanup_order[OF s']
  have a: "\<forall>p \<in> set (languages (statistics s')).
                (\<forall>e \<in> set (dates (snd p)). \<not> fst e < cutoff)
              \<and> (\<exists>ls. (fst p, ls) \<in> set (languages (statistics s))
                       \<and> dates (snd p) = filter (\<lambda>e. \<not> fst e < cutoff) (dates ls))
              \<and> totalCount (snd p) = jsSum (map snd (dates (snd p)))
              \<and> ((\<forall>e \<in> set (dates (snd p)). 0 \<le> snd e)
                   \<and> sum_list (map snd (dates (snd p))) \<le> maxExact
                  \<longrightarrow> totalCount (snd p) = Num (sum_list (map snd (dates (snd p)))))
              \<and> totalCount (snd p) \<noteq> Num 0"
  proof
    fix p assume "p \<in> set (languages (statistics s'))"
    from cleanup_entries[OF Some s' this] obtain ls :: LanguageStats where
      ls: "(fst p, ls) \<in> set (languages (statistics s))"
          "dates (snd p) = filter (notExpired cutoff) (dates ls)"
          "totalCount (snd p) = jsSum (map snd (dates (snd p)))"
          "totalCount (snd p) \<noteq> Num 0"
      by blast
    from ls(2) have fresh: "\<forall>e \<in> set (dates (snd p)). \<not> fst e < cutoff"
      by (simp add: notExpired_def)
    have exact: "(\<forall>e \<in> set (dates (snd p)). 0 \<le> snd e)
                   \<and> sum_list (map snd (dates (snd p))) \<le> maxExact
                  \<longrightarrow> totalCount (snd p) = Num (sum_list (map snd (dates (snd p))))"
    proof
      assume h: "(\<forall>e \<in> set (dates (snd p)). 0 \<le> snd e)
                   \<and> sum_list (map snd (dates (snd p))) \<le> maxExact"
      then have "\<forall>x \<in> set (map snd (dates (snd p))). 0 \<le> x" by simp
      from jsSum_exact[OF this] h ls(3)
      show "totalCount (snd p) = Num (sum_list (map snd (dates (snd p))))" by simp
    qed
    from ls(1,2) have "\<exists>ls. (fst p, ls) \<in> set (languages (statistics s))
                       \<and> dates (snd p) = filter (\<lambda>e. \<not> fst e < cutoff) (dates ls)"
      unfolding ne by blast
    with fresh ls(3,4) exact
    show "(\<forall>e \<in> set (dates (snd p)). \<not> fst e < cutoff)
              \<and> (\<exists>ls. (fst p, ls) \<in> set (languages (statistics s))
                       \<and> dates (snd p) = filter (\<lambda>e. \<not> fst e < cutoff) (dates ls))
              \<and> totalCount (snd p) = jsSum (map snd (dates (snd p)))
              \<and> ((\<forall>e \<in> set (dates (snd p)). 0 \<le> snd e)
                   \<and> sum_list (map snd (dates (snd p))) \<le> maxExact
                  \<longrightarrow> totalCount (snd p) = Num (sum_list (map snd (dates (snd p)))))
              \<and> totalCount (snd p) \<noteq> Num 0"
      by (intro conjI)
  qed
  have m: "mset (frequencyOrder (statistics s')) = mset (obj_keys (languages (statistics s')))"
    using frequencyOrder_mset[of "statistics s'"] arg_cong[OF ord, of frequencyOrder] by simp
  have b: "\<forall>q \<in> set (languages (statistics s)).
                (jsSum (map snd (filter (\<lambda>e. \<not> fst e < cutoff) (dates (snd q)))) = Num 0
                 \<longrightarrow> fst q \<notin> set (obj_keys (languages (statistics s')))
                     \<and> fst q \<notin> set (frequencyOrder (statistics s')))
              \<and> (distinct (obj_keys (languages (statistics s)))
                   \<and> jsSum (map snd (filter (\<lambda>e. \<not> fst e < cutoff) (dates (snd q)))) \<noteq> Num 0
                 \<longrightarrow> (fst q, cleanupLanguage cutoff (snd q)) \<in> set (languages (statistics s'))
                     \<and> fst q \<in> set (frequencyOrder (statistics s')))"
  proof
    fix q assume q: "q \<in> set (languages (statistics s))"
    have gone: "fst q \<notin> set (obj_keys (languages (statistics s')))
                     \<and> fst q \<notin> set (frequencyOrder (statistics s'))"
      if "jsSum (map snd (filter (notExpired cutoff) (dates (snd q)))) = Num 0"
      using cleanup_removed[OF Some s' q that] m by (metis set_mset_mset)
    have kept: "(fst q, cleanupLanguage cutoff (snd q)) \<in> set (languages (statistics s'))
                     \<and> fst q \<in> set (frequencyOrder (statistics s'))"
      if "distinct (obj_keys (languages (statistics s)))"
         "jsSum (map snd (filter (notExpired cutoff) (dates (snd q)))) \<noteq> Num 0"
    proof -
      note mem = cleanup_survives[OF Some s' that(1) q that(2)]
      have "fst q \<in> fst ` set (languages (statistics s'))"
        using image_eqI[OF _ mem, of "fst q" fst] by simp
      then have "fst q \<in> set (obj_keys (languages (statistics s')))"
        by (simp add: obj_keys_def)
      then have "fst q \<in> set (frequencyOrder (statistics s'))"
        using m by (metis set_mset_mset)
      with mem show ?thesis by (rule conjI)
    qed
    from gone kept
    show "(jsSum (map snd (filter (\<lambda>e. \<not> fst e < cutoff) (dates (snd q)))) = Num 0
                 \<longrightarrow> fst q \<notin> set (obj_keys (languages (statistics s')))
                     \<and> fst q \<notin> set (frequencyOrder (statistics s')))
              \<and> (distinct (obj_keys (languages (statistics s)))
                   \<and> jsSum (map snd (filter (\<lambda>e. \<not> fst e < cutoff) (dates (snd q)))) \<noteq> Num 0
                 \<longrightarrow> (fst q, cleanupLanguage cutoff (snd q)) \<in> set (languages (statistics s'))
                     \<and> fst q \<in> set (frequencyOrder (statistics s')))"
      unfolding ne by blast
  qed
  have c: "distinct (obj_keys (languages (statistics s)))
                \<longrightarrow> languages (statistics s') =
                      filter (\<lambda>p. totalCount (snd p) \<noteq> Num 0)
                        (map (\<lambda>p. (fst p, cleanupLanguage cutoff (snd p))) (languages (statistics s)))"
    using cleanup_distinct[OF Some s'] by blast
  have d: "sorted_wrt (\<lambda>a b. jsSubSign (totalCountOf (languages (statistics s')) b)
                                        (totalCountOf (languages (statistics s')) a) \<le> 0)
               (frequencyOrder (statistics s'))"
    using frequencyOrder_sorted[of "statistics s'"] arg_cong[OF ord, of frequencyOrder] by simp
  have f: "s' = s\<lparr>statistics := statistics s'\<rparr>"
    using s' unfolding cleanup_Some[OF Some] by auto
  have "\<exists>s'. cleanupExpiredStatistics now s = Inr s'
          \<and> (\<forall>p \<in> set (languages (statistics s')).
                (\<forall>e \<in> set (dates (snd p)). \<not> fst e < cutoff)
              \<and> (\<exists>ls. (fst p, ls) \<in> set (languages (statistics s))
                       \<and> dates (snd p) = filter (\<lambda>e. \<not> fst e < cutoff) (dates ls))
              \<and> totalCount (snd p) = jsSum (map snd (dates (snd p)))
              \<and> ((\<forall>e \<in> set (dates (snd p)). 0 \<le> snd e)
                   \<and> sum_list (map snd (dates (snd p))) \<le> maxExact
                  \<longrightarrow> totalCount (snd p) = Num (sum_list (map snd (dates (snd p)))))
              \<and> totalCount (snd p) \<noteq> Num 0)
          \<and> (\<forall>q \<in> set (languages (statistics s)).
                (jsSum (map snd (filter (\<lambda>e. \<not> fst e < cutoff) (dates (snd q)))) = Num 0
                 \<longrightarrow> fst q \<notin> set (obj_keys (languages (statistics s')))
                     \<and> fst q \<notin> set (frequencyOrder (statistics s')))
              \<and> (distinct (obj_keys (languages (statistics s)))
                   \<and> jsSum (map snd (filter (\<lambda>e. \<not> fst e < cutoff) (dates (snd q)))) \<noteq> Num 0
                 \<longrightarrow> (fst q, cleanupLanguage cutoff (snd q)) \<in> set (languages (statistics s'))
                     \<and> fst q \<in> set (frequencyOrder (statistics s'))))
          \<and> (distinct (obj_keys (languages (statistics s)))
                \<longrightarrow> languages (statistics s') =
                      filter (\<lambda>p. totalCount (snd p) \<noteq> Num 0)
                        (map (\<lambda>p. (fst p, cleanupLanguage cutoff (snd p))) (languages (statistics s))))
          \<and> s' = s\<lparr>statistics := statistics s'\<rparr>
          \<and> statistics s' = updateFrequencyOrder (statistics s')
          \<and> mset (frequencyOrder (statistics s')) = mset (obj_keys (languages (statistics s')))
          \<and> sorted_wrt (\<lambda>a b. jsSubSign (totalCountOf (languages (statistics s')) b)
                                        (totalCountOf (languages (statistics s')) a) \<le> 0)
               (frequencyOrder (statistics s'))"
    by (intro exI[of _ s'] conjI s' a b c f ord m d)
  with day show ?thesis
    unfolding iso option.case by (rule conjI)
qed

theorem cleanupExpiredStatistics_prunes_witness:
  "frequencyDaysRange (config prunedState) = 30
   \<and> isoDate (1761350400000 - 30 * 24 * 60 * 60 * 1000) = Some (js ''2025-09-25'')
   \<and> (\<exists>s'. cleanupExpiredStatistics 1761350400000 prunedState = Inr s'
         \<and> languages (statistics s') =
             [(js ''python'', \<lparr>totalCount = Num 3,
                 dates = [(js ''2025-09-25'', 1), (js ''2025-10-20'', 2)]\<rparr>)]
         \<and> frequencyOrder (statistics s') = [js ''python'']
         \<and> js ''old'' \<notin> set (obj_keys (languages (statistics s')))
         \<and> (\<forall>p \<in> set (languages (statistics s')).
                totalCount (snd p) = jsSum (map snd (dates (snd p)))))
   \<and> frequencyDaysRange (config shortWindowState) = 7
   \<and> statistics shortWindowState = statistics prunedState
   \<and> isoDate (1761350400000 - 7 * 24 * 60 * 60 * 1000) = Some (js ''2025-10-18'')
   \<and> (\<exists>s'. cleanupExpiredStatistics 1761350400000 shortWindowState = Inr s'
         \<and> languages (statistics s') =
             [(js ''python'', \<lparr>totalCount = Num 2, dates = [(js ''2025-10-20'', 2)]\<rparr>)]
         \<and> frequencyOrder (statistics s') = [js ''python'']
         \<and> (\<forall>p \<in> set (languages (statistics s')).
                totalCount (snd p) = jsSum (map snd (dates (snd p)))))"
proof -
  have w: "frequencyDaysRange (config prunedState) = 30"
          "frequencyDaysRange (config shortWindowState) = 7"
          "statistics shortWindowState = statistics prunedState"
    by code_simp+
  have c: "isoDate (1761350400000 - 30 * 24 * 60 * 60 * 1000) = Some (js ''2025-09-25'')"
          "isoDate (1761350400000 - 7 * 24 * 60 * 60 * 1000) = Some (js ''2025-10-18'')"
    by code_simp+
  have v: "map_sum id (\<lambda>s'. (languages (statistics s'), frequencyOrder (statistics s')))
             (cleanupExpiredStatistics 1761350400000 prunedState)
           = Inr ([(js ''python'', \<lparr>totalCount = Num 3,
                 dates = [(js ''2025-09-25'', 1), (js ''2025-10-20'', 2)]\<rparr>)], [js ''python''])"
    by code_simp
  have v7: "map_sum id (\<lambda>s'. (languages (statistics s'), frequencyOrder (statistics s')))
             (cleanupExpiredStatistics 1761350400000 shortWindowState)
           = Inr ([(js ''python'', \<lparr>totalCount = Num 2, dates = [(js ''2025-10-20'', 2)]\<rparr>)],
                  [js ''python''])"
    by code_simp
  have q: "(js ''old'', \<lparr>totalCount = Num 4, dates = [(js ''2025-09-24'', 4)]\<rparr>)
             \<in> set (languages (statistics prunedState))"
    by code_simp
  have z: "jsSum (map snd (filter (\<lambda>e. \<not> fst e < js ''2025-09-25'')
             (dates (snd (js ''old'', \<lparr>totalCount = Num 4, dates = [(js ''2025-09-24'', 4)]\<rparr>)))))
           = Num 0"
    by code_simp
  from cleanupExpiredStatistics_prunes[of 1761350400000 prunedState]
  obtain s' where s': "cleanupExpiredStatistics 1761350400000 prunedState = Inr s'"
    and t: "\<forall>p \<in> set (languages (statistics s')).
                totalCount (snd p) = jsSum (map snd (dates (snd p)))"
    and g: "\<forall>q \<in> set (languages (statistics prunedState)).
                jsSum (map snd (filter (\<lambda>e. \<not> fst e < js ''2025-09-25'') (dates (snd q)))) = Num 0
                 \<longrightarrow> fst q \<notin> set (obj_keys (languages (statistics s')))"
    unfolding w c option.case by blast
  from g[rule_format, OF q z] have o: "js ''old'' \<notin> set (obj_keys (languages (statistics s')))"
    by simp
  from v s' have r: "languages (statistics s') =
             [(js ''python'', \<lparr>totalCount = Num 3,
                 dates = [(js ''2025-09-25'', 1), (js ''2025-10-20'', 2)]\<rparr>)]"
        "frequencyOrder (statistics s') = [js ''python'']"
    by simp_all
  from cleanupExpiredStatistics_prunes[of 1761350400000 shortWindowState]
  obtain s7 where s7: "cleanupExpiredStatistics 1761350400000 shortWindowState = Inr s7"
    and t7: "\<forall>p \<in> set (languages (statistics s7)).
                totalCount (snd p) = jsSum (map snd (dates (snd p)))"
    unfolding w c option.case by blast
  from v7 s7 have r7: "languages (statistics s7) =
             [(js ''python'', \<lparr>totalCount = Num 2, dates = [(js ''2025-10-20'', 2)]\<rparr>)]"
        "frequencyOrder (statistics s7) = [js ''python'']"
    by simp_all
  from s' r o t have e: "\<exists>s'. cleanupExpiredStatistics 1761350400000 prunedState = Inr s'
         \<and> languages (statistics s') =
             [(js ''python'', \<lparr>totalCount = Num 3,
                 dates = [(js ''2025-09-25'', 1), (js ''2025-10-20'', 2)]\<rparr>)]
         \<and> frequencyOrder (statistics s') = [js ''python'']
         \<and> js ''old'' \<notin> set (obj_keys (languages (statistics s')))
         \<and> (\<forall>p \<in> set (languages (statistics s')).
                totalCount (snd p) = jsSum (map snd (dates (snd p))))"
    by blast
  from s7 r7 t7 have e7: "\<exists>s'. cleanupExpiredStatistics 1761350400000 shortWindowState = Inr s'
         \<and> languages (statistics s') =
             [(js ''python'', \<lparr>totalCount = Num 2, dates = [(js ''2025-10-20'', 2)]\<rparr>)]
         \<and> frequencyOrder (statistics s') = [js ''python'']
         \<and> (\<forall>p \<in> set (languages (statistics s')).
                totalCount (snd p) = jsSum (map snd (dates (snd p))))"
    by blast
  from w c e e7 show ?thesis by (intro conjI)
qed

section \<open>Claims about the ordering of the language list\<close>

lemma onload_cachesCurrent: "cachesCurrent (onload c st)"
  by (simp add: onload_def cachesCurrent_def parseAndCacheLanguages_def Let_def)

lemma confirmCallback_cachesCurrent: "cachesCurrent (confirmCallback s)"
  by (simp add: confirmCallback_def cachesCurrent_def parseAndCacheLanguages_def)

lemma languageUpdate_no_query_custom:
  assumes "truthy v = None" "sortMode (config s) = Custom"
  shows "languageUpdate lc s langs v =
     cachedCustomOrderLanguages s
     @ sort (filter (\<lambda>lang. lang \<notin> set (cachedCustomOrderLanguages s)) (cachedOtherCustomLanguages s)
             @ filter (\<lambda>lang. lang \<notin> set (cachedCustomOrderLanguages s)
                              \<and> lang \<notin> set (cachedOtherCustomLanguages s)
                              \<and> lang \<notin> set (cachedExcludedLanguages s)) langs)"
  using assms by (simp add: languageUpdate_def Let_def)

lemma languageUpdate_no_query_frequency:
  assumes "truthy v = None" "sortMode (config s) = Frequency"
  shows "languageUpdate lc s langs v =
     slice0 (frequencyOrder (statistics s)) (frequencyTopCount (config s))
     @ sort (filter (\<lambda>lang. lang \<notin> set (slice0 (frequencyOrder (statistics s)) (frequencyTopCount (config s))))
               (cachedOtherCustomLanguages s)
             @ filter (\<lambda>lang. lang \<notin> set (slice0 (frequencyOrder (statistics s)) (frequencyTopCount (config s)))
                              \<and> lang \<notin> set (cachedOtherCustomLanguages s)
                              \<and> lang \<notin> set (cachedExcludedLanguages s)) langs)"
  using assms by (simp add: languageUpdate_def Let_def)

lemma languageUpdate_query:
  assumes "truthy v = Some q"
  shows "languageUpdate lc s langs v =
     sort_by (compareMatch lc (lc q)) (filter (\<lambda>item. sublist (lc q) (lc item)) (matchPool s langs))"
  using assms by (simp add: languageUpdate_def Let_def)

lemma matchPool_excluded:
  assumes "t \<in> set (matchPool s langs)" "t \<in> set (cachedExcludedLanguages s)"
  shows "(sortMode (config s) = Custom \<and> t \<in> set (cachedCustomOrderLanguages s))
         \<or> t \<in> set (cachedOtherCustomLanguages s)"
  using assms by (auto simp: matchPool_def Let_def split: if_splits)

text \<open>
  Claim C1, as stated, fails: a token of \<open>excludedLanguages\<close> that is also a token of
  \<open>customOrder\<close> or of \<open>otherCustomLanguages\<close>, or one of the pinned entries of
  \<open>frequencyOrder\<close>, is in the output, in Custom and in Frequency mode, without a query
  and (for the two configured lists) with one. The exclusion filter is applied to the
  array the event brings, not to the configured lists or to the pinned prefix.
\<close>

theorem excluded_token_in_output:
  "js ''js'' \<in> set (parseLanguagesInput (Some (excludedLanguages (config customExcludedState))))
   \<and> js ''go'' \<in> set (parseLanguagesInput (Some (excludedLanguages (config customExcludedState))))
   \<and> languageUpdate asciiLowerCase customExcludedState [js ''c'', js ''go'', js ''js'', js ''lua''] None
       = [js ''js'', js ''go'', js ''lua'']
   \<and> languageUpdate asciiLowerCase customExcludedState [js ''c'', js ''go'', js ''js'', js ''lua''] (Some (js ''o''))
       = [js ''go'']
   \<and> js ''js'' \<in> set (parseLanguagesInput (Some (excludedLanguages (config frequencyExcludedState))))
   \<and> js ''go'' \<in> set (parseLanguagesInput (Some (excludedLanguages (config frequencyExcludedState))))
   \<and> sortMode (config frequencyExcludedState) = Frequency
   \<and> languageUpdate asciiLowerCase frequencyExcludedState [js ''c'', js ''go'', js ''js'', js ''lua''] None
       = [js ''js'', js ''go'', js ''lua'']
   \<and> languageUpdate asciiLowerCase frequencyExcludedState [js ''c'', js ''go'', js ''js'', js ''lua''] (Some (js ''o''))
       = [js ''go'']"
  by code_simp

text \<open>
  Claim C1, amended. An output token that is listed in \<open>excludedLanguages\<close> never comes
  from the array of the event: it is a token of \<open>customOrder\<close> (Custom mode), a token of
  \<open>otherCustomLanguages\<close>, or one of the pinned top entries of \<open>frequencyOrder\<close>
  (Frequency mode, no query).
\<close>

theorem excluded_only_from_pinned_lists:
  assumes "t \<in> set (languageUpdate lc s langs v)"
      and "t \<in> set (cachedExcludedLanguages s)"
  shows "(sortMode (config s) = Custom \<and> t \<in> set (cachedCustomOrderLanguages s))
         \<or> t \<in> set (cachedOtherCustomLanguages s)
         \<or> (sortMode (config s) = Frequency \<and> truthy v = None
             \<and> t \<in> set (slice0 (frequencyOrder (statistics s)) (frequencyTopCount (config s))))"
proof (cases "truthy v")
  case (Some q)
  with assms(1) have "t \<in> set (matchPool s langs)"
    by (simp add: languageUpdate_query set_sort_by)
  from matchPool_excluded[OF this assms(2)] show ?thesis by blast
next
  case None
  show ?thesis
  proof (cases "sortMode (config s)")
    case Custom
    with assms None show ?thesis
      by (auto simp: languageUpdate_no_query_custom)
  next
    case Frequency
    with assms None show ?thesis
      by (auto simp: languageUpdate_no_query_frequency)
  qed
qed

theorem excluded_only_from_pinned_lists_witness:
  "js ''c'' \<in> set (cachedExcludedLanguages customExcludedState)
   \<and> js ''c'' \<notin> set (cachedCustomOrderLanguages customExcludedState)
   \<and> js ''c'' \<notin> set (cachedOtherCustomLanguages customExcludedState)
   \<and> sortMode (config customExcludedState) = Custom
   \<and> js ''c'' \<notin> set (languageUpdate asciiLowerCase customExcludedState
                        [js ''c'', js ''go'', js ''js'', js ''lua''] None)
   \<and> js ''js'' \<in> set (languageUpdate asciiLowerCase customExcludedState
                        [js ''c'', js ''go'', js ''js'', js ''lua''] None)
   \<and> js ''js'' \<in> set (cachedCustomOrderLanguages customExcludedState)"
proof -
  have e: "js ''c'' \<in> set (cachedExcludedLanguages customExcludedState)"
          "js ''js'' \<in> set (cachedExcludedLanguages customExcludedState)"
    by code_simp+
  have n: "js ''c'' \<notin> set (cachedCustomOrderLanguages customExcludedState)"
          "js ''c'' \<notin> set (cachedOtherCustomLanguages customExcludedState)"
          "sortMode (config customExcludedState) = Custom"
    by code_simp+
  have o: "js ''js'' \<in> set (languageUpdate asciiLowerCase customExcludedState
                        [js ''c'', js ''go'', js ''js'', js ''lua''] None)"
    by code_simp
  have "js ''c'' \<notin> set (languageUpdate asciiLowerCase customExcludedState
                        [js ''c'', js ''go'', js ''js'', js ''lua''] None)"
    using excluded_only_from_pinned_lists[OF _ e(1), of asciiLowerCase
            "[js ''c'', js ''go'', js ''js'', js ''lua'']" None] n
    by auto
  moreover have "js ''js'' \<in> set (cachedCustomOrderLanguages customExcludedState)"
    by code_simp
  ultimately show ?thesis using e n o by blast
qed



lemma length_frequencyOrder_update:
  "length (frequencyOrder (updateFrequencyOrder st)) = length (languages st)"
  by (simp add: updateFrequencyOrder_def length_sort_by obj_keys_def)

text \<open>
  Claim C2. In Frequency mode without a query, for a \<open>frequencyTopCount\<close> that is not
  negative, the output is the first \<open>frequencyTopCount\<close> entries of \<open>frequencyOrder\<close>
  followed by the sorted rest; the prefix does not depend on the array of the event, it
  has \<open>min frequencyTopCount (length frequencyOrder)\<close> entries, and when fewer languages
  are tracked than \<open>frequencyTopCount\<close> it is the whole of \<open>frequencyOrder\<close>, one entry
  for each tracked language.
\<close>

theorem frequency_pinned_prefix:
  assumes "sortMode (config s) = Frequency"
      and "truthy v = None"
      and "0 \<le> frequencyTopCount (config s)"
  shows "languageUpdate lc s langs v =
           take (nat (frequencyTopCount (config s))) (frequencyOrder (statistics s))
           @ sort (filter (\<lambda>lang. lang \<notin> set (take (nat (frequencyTopCount (config s)))
                                                (frequencyOrder (statistics s))))
                     (cachedOtherCustomLanguages s)
                   @ filter (\<lambda>lang. lang \<notin> set (take (nat (frequencyTopCount (config s)))
                                                  (frequencyOrder (statistics s)))
                                    \<and> lang \<notin> set (cachedOtherCustomLanguages s)
                                    \<and> lang \<notin> set (cachedExcludedLanguages s)) langs)
         \<and> length (take (nat (frequencyTopCount (config s))) (frequencyOrder (statistics s)))
             = min (nat (frequencyTopCount (config s))) (length (frequencyOrder (statistics s)))
         \<and> (length (frequencyOrder (statistics s)) < nat (frequencyTopCount (config s))
              \<longrightarrow> take (nat (frequencyTopCount (config s))) (frequencyOrder (statistics s))
                    = frequencyOrder (statistics s))
         \<and> (statistics s = updateFrequencyOrder (statistics s)
              \<and> length (languages (statistics s)) < nat (frequencyTopCount (config s))
              \<longrightarrow> length (take (nat (frequencyTopCount (config s))) (frequencyOrder (statistics s)))
                    = length (languages (statistics s)))"
proof -
  have "statistics s = updateFrequencyOrder (statistics s)
        \<Longrightarrow> length (frequencyOrder (statistics s)) = length (languages (statistics s))"
    using length_frequencyOrder_update[of "statistics s"] by simp
  then show ?thesis
    using assms by (auto simp: languageUpdate_no_query_frequency slice0_nonneg)
qed

theorem frequency_pinned_prefix_witness:
  "sortMode (config frequencyState) = Frequency
   \<and> frequencyTopCount (config frequencyState) = 5
   \<and> languageUpdate asciiLowerCase frequencyState [js ''c'', js ''ada''] None
       = [js ''rust'', js ''go'', js ''ada'', js ''c'']
   \<and> length (take (nat (frequencyTopCount (config frequencyState)))
               (frequencyOrder (statistics frequencyState))) = 2"
proof -
  have m: "sortMode (config frequencyState) = Frequency" by code_simp
  have n: "frequencyTopCount (config frequencyState) = 5" by code_simp
  have f: "frequencyOrder (statistics frequencyState) = [js ''rust'', js ''go'']" by code_simp
  have o: "take (nat 5) [js ''rust'', js ''go''] @
           sort (filter (\<lambda>lang. lang \<notin> set (take (nat 5) [js ''rust'', js ''go'']))
                     (cachedOtherCustomLanguages frequencyState)
                   @ filter (\<lambda>lang. lang \<notin> set (take (nat 5) [js ''rust'', js ''go''])
                                    \<and> lang \<notin> set (cachedOtherCustomLanguages frequencyState)
                                    \<and> lang \<notin> set (cachedExcludedLanguages frequencyState))
                       [js ''c'', js ''ada''])
           = [js ''rust'', js ''go'', js ''ada'', js ''c'']"
    by code_simp
  have t: "truthy None = None" by (simp add: truthy_def)
  have z: "0 \<le> frequencyTopCount (config frequencyState)" by (simp add: n)
  from frequency_pinned_prefix[OF m t z, of asciiLowerCase "[js ''c'', js ''ada'']"]
  show ?thesis
    unfolding n f o using m by simp
qed


lemma codePoints_no_surrogate:
  "\<forall>u \<in> set t. \<not> isSurrogate u \<Longrightarrow> codePoints t = t"
proof (induction t rule: codePoints.induct)
  case 1
  show ?case by simp
next
  case (2 u)
  show ?case by simp
next
  case (3 u v rest)
  from "3.prems" have "\<not> isSurrogate u" by simp
  then have nu: "\<not> (0xD800 \<le> u \<and> u \<le> 0xDBFF \<and> 0xDC00 \<le> v \<and> v \<le> 0xDFFF)"
    unfolding isSurrogate_def by linarith
  from "3.prems" have "\<forall>u \<in> set (v # rest). \<not> isSurrogate u" by simp
  with "3.IH"(2)[OF nu] have "codePoints (v # rest) = v # rest" .
  moreover have "codePoints (u # v # rest) = u # codePoints (v # rest)"
    by (simp only: codePoints.simps nu if_False)
  ultimately show ?case by simp
qed

lemma sorted_codePoints:
  assumes "sorted ts" "\<forall>t \<in> set ts. \<forall>u \<in> set t. \<not> isSurrogate u"
  shows "sorted (map codePoints ts)"
proof -
  have "map codePoints ts = map (\<lambda>t. t) ts"
    by (rule map_cong[OF refl]) (use assms(2) in \<open>simp add: codePoints_no_surrogate\<close>)
  with assms(1) show ?thesis by simp
qed

text \<open>
  Claim C3, as stated, fails on the order of the rest: \<open>sort()\<close> compares UTF-16 code
  units, and a token that starts with a surrogate pair (U+1F600, code units D83D DE00)
  is put before U+FF5E, against the order of the code points.
\<close>

theorem custom_order_not_code_point_sorted:
  "sortMode (config emptyCustomState) = Custom
   \<and> languageUpdate asciiLowerCase emptyCustomState [[0xFF5E], [0xD83D, 0xDE00]] None
       = [[0xD83D, 0xDE00], [0xFF5E]]
   \<and> map codePoints [[0xD83D, 0xDE00], [0xFF5E]] = [[0x1F600], [0xFF5E]]
   \<and> \<not> sorted (map codePoints
                  (languageUpdate asciiLowerCase emptyCustomState [[0xFF5E], [0xD83D, 0xDE00]] None))"
  by code_simp

text \<open>
  Claim C3, amended. In Custom mode without a query the output is the tokens of
  \<open>customOrder\<close> in their declared order, whether or not the event brings them, followed
  by the tokens of \<open>otherCustomLanguages\<close> that are not in \<open>customOrder\<close> together with
  the tokens of the event that are in neither list and not excluded, sorted by UTF-16
  code units; this is the order of the code points when no output token has a surrogate
  code unit.
\<close>

theorem custom_mode_order:
  assumes "sortMode (config s) = Custom"
      and "truthy v = None"
      and "cachesCurrent s"
  shows "languageUpdate lc s langs v =
           parseLanguagesInput (Some (customOrder (config s)))
           @ sort (filter (\<lambda>t. t \<notin> set (parseLanguagesInput (Some (customOrder (config s)))))
                     (parseLanguagesInput (Some (otherCustomLanguages (config s))))
                   @ filter (\<lambda>t. t \<notin> set (parseLanguagesInput (Some (customOrder (config s))))
                                 \<and> t \<notin> set (parseLanguagesInput (Some (otherCustomLanguages (config s))))
                                 \<and> t \<notin> set (parseLanguagesInput (Some (excludedLanguages (config s)))))
                       langs)
         \<and> sorted (drop (length (parseLanguagesInput (Some (customOrder (config s)))))
                      (languageUpdate lc s langs v))
         \<and> ((\<forall>t \<in> set (languageUpdate lc s langs v). \<forall>u \<in> set t. \<not> isSurrogate u)
              \<longrightarrow> sorted (map codePoints
                     (drop (length (parseLanguagesInput (Some (customOrder (config s)))))
                        (languageUpdate lc s langs v))))"
proof -
  let ?c = "parseLanguagesInput (Some (customOrder (config s)))"
  let ?rest = "sort (filter (\<lambda>t. t \<notin> set ?c)
                     (parseLanguagesInput (Some (otherCustomLanguages (config s))))
                   @ filter (\<lambda>t. t \<notin> set ?c
                                 \<and> t \<notin> set (parseLanguagesInput (Some (otherCustomLanguages (config s))))
                                 \<and> t \<notin> set (parseLanguagesInput (Some (excludedLanguages (config s)))))
                       langs)"
  have eq: "languageUpdate lc s langs v = ?c @ ?rest"
    using assms by (simp add: languageUpdate_no_query_custom cachesCurrent_def)
  have d: "drop (length ?c) (languageUpdate lc s langs v) = ?rest"
    by (simp add: eq)
  have s: "sorted ?rest" by simp
  have cp: "sorted (map codePoints ?rest)"
    if "\<forall>t \<in> set (languageUpdate lc s langs v). \<forall>u \<in> set t. \<not> isSurrogate u"
  proof (rule sorted_codePoints[OF s])
    from that have "\<forall>t \<in> set (?c @ ?rest). \<forall>u \<in> set t. \<not> isSurrogate u"
      unfolding eq .
    then show "\<forall>t\<in>set ?rest. \<forall>u\<in>set t. \<not> isSurrogate u"
      by (simp only: set_append Un_iff) blast
  qed
  show ?thesis
    unfolding d using eq s cp by blast
qed

theorem custom_mode_order_witness:
  "sortMode (config customState) = Custom
   \<and> cachesCurrent customState
   \<and> parseLanguagesInput (Some (customOrder (config customState))) = [js ''foo'', js ''bar'']
   \<and> languageUpdate asciiLowerCase customState [js ''cobol'', js ''bar'', js ''baz'', js ''Ada''] None
       = [js ''foo'', js ''bar'', js ''Ada'', js ''baz'', js ''zig'']"
proof -
  have m: "sortMode (config customState) = Custom" by code_simp
  have c: "cachesCurrent customState" by (simp add: customState_def onload_cachesCurrent)
  have t: "truthy None = None" by (simp add: truthy_def)
  have p: "parseLanguagesInput (Some (customOrder (config customState))) = [js ''foo'', js ''bar'']"
    by code_simp
  have r: "parseLanguagesInput (Some (customOrder (config customState)))
           @ sort (filter (\<lambda>t. t \<notin> set (parseLanguagesInput (Some (customOrder (config customState)))))
                     (parseLanguagesInput (Some (otherCustomLanguages (config customState))))
                   @ filter (\<lambda>t. t \<notin> set (parseLanguagesInput (Some (customOrder (config customState))))
                                 \<and> t \<notin> set (parseLanguagesInput (Some (otherCustomLanguages (config customState))))
                                 \<and> t \<notin> set (parseLanguagesInput (Some (excludedLanguages (config customState)))))
                       [js ''cobol'', js ''bar'', js ''baz'', js ''Ada''])
           = [js ''foo'', js ''bar'', js ''Ada'', js ''baz'', js ''zig'']"
    by code_simp
  from custom_mode_order[OF m t c, of asciiLowerCase "[js ''cobol'', js ''bar'', js ''baz'', js ''Ada'']"]
  have "languageUpdate asciiLowerCase customState [js ''cobol'', js ''bar'', js ''baz'', js ''Ada''] None
       = [js ''foo'', js ''bar'', js ''Ada'', js ''baz'', js ''zig'']"
    unfolding r by blast
  with m c p show ?thesis by blast
qed


lemma compareMatch_consistent:
  "compareMatch lc q a b < 0 \<longleftrightarrow> matchRank lc q a < matchRank lc q b"
  "compareMatch lc q a b = 0 \<longleftrightarrow> matchRank lc q a = matchRank lc q b"
  by (auto simp: compareMatch_def matchRank_def Let_def)

lemma matchRank_starts:
  "matchRank lc q a \<le> matchRank lc q b \<Longrightarrow> prefix q (lc b) \<Longrightarrow>
     prefix q (lc a) \<and> length a \<le> length b"
  by (auto simp: matchRank_def split: if_splits)

text \<open>
  Claim C4. With a non-empty query the output is the stable sort, by match rank, of the
  pool tokens whose lower-case form contains the lower-case query: the same tokens with
  the same multiplicities; every token before a token that starts with the query starts
  with it too and is not longer; tokens of equal rank keep their pool order. The witness
  is the example of the claim: for the query \<open>py\<close> the pool python, copy, pylint, go is
  ranked python, pylint, copy.
\<close>

theorem search_ranking:
  assumes "truthy v = Some q"
  shows "languageUpdate lc s langs v =
           sort_key (matchRank lc (lc q))
             (filter (\<lambda>t. sublist (lc q) (lc t)) (matchPool s langs))
         \<and> mset (languageUpdate lc s langs v)
             = mset (filter (\<lambda>t. sublist (lc q) (lc t)) (matchPool s langs))
         \<and> (\<forall>i j. i < j \<and> j < length (languageUpdate lc s langs v)
                \<and> prefix (lc q) (lc (languageUpdate lc s langs v ! j))
              \<longrightarrow> prefix (lc q) (lc (languageUpdate lc s langs v ! i))
                  \<and> length (languageUpdate lc s langs v ! i)
                      \<le> length (languageUpdate lc s langs v ! j))
         \<and> (\<forall>k. filter (\<lambda>t. matchRank lc (lc q) t = k) (languageUpdate lc s langs v)
                = filter (\<lambda>t. matchRank lc (lc q) t = k)
                    (filter (\<lambda>t. sublist (lc q) (lc t)) (matchPool s langs)))"
proof -
  let ?ms = "filter (\<lambda>t. sublist (lc q) (lc t)) (matchPool s langs)"
  let ?out = "languageUpdate lc s langs v"
  have out: "?out = sort_key (matchRank lc (lc q)) ?ms"
    unfolding languageUpdate_query[OF assms]
    by (rule sort_by_sort_key) (rule compareMatch_rank)
  have m: "mset ?out = mset ?ms"
    by (simp add: out)
  have "sorted (map (matchRank lc (lc q)) ?out)"
    unfolding out by (rule sorted_sort_key)
  then have mono: "matchRank lc (lc q) (?out ! i) \<le> matchRank lc (lc q) (?out ! j)"
    if "i < j" "j < length ?out" for i j
    using that by (simp add: sorted_iff_nth_mono)
  have r: "prefix (lc q) (lc (?out ! i)) \<and> length (?out ! i) \<le> length (?out ! j)"
    if "i < j" "j < length ?out" "prefix (lc q) (lc (?out ! j))" for i j
    using matchRank_starts[OF mono[OF that(1,2)] that(3)] .
  have st: "filter (\<lambda>t. matchRank lc (lc q) t = k) ?out
              = filter (\<lambda>t. matchRank lc (lc q) t = k) ?ms" for k
    unfolding out by (rule sort_key_stable)
  from out m r st show ?thesis by blast
qed

theorem search_ranking_witness:
  "truthy (Some (js ''py'')) = Some (js ''py'')
   \<and> matchPool (onload None None) [js ''python'', js ''copy'', js ''pylint'', js ''go'']
       = [js ''python'', js ''copy'', js ''pylint'', js ''go'']
   \<and> languageUpdate asciiLowerCase (onload None None)
         [js ''python'', js ''copy'', js ''pylint'', js ''go''] (Some (js ''py''))
       = [js ''python'', js ''pylint'', js ''copy'']"
proof -
  have t: "truthy (Some (js ''py'')) = Some (js ''py'')" by code_simp
  have p: "matchPool (onload None None) [js ''python'', js ''copy'', js ''pylint'', js ''go'']
       = [js ''python'', js ''copy'', js ''pylint'', js ''go'']"
    by code_simp
  have e: "sort_key (matchRank asciiLowerCase (asciiLowerCase (js ''py'')))
             (filter (\<lambda>t. sublist (asciiLowerCase (js ''py'')) (asciiLowerCase t))
                [js ''python'', js ''copy'', js ''pylint'', js ''go''])
           = [js ''python'', js ''pylint'', js ''copy'']"
    by code_simp
  from search_ranking[OF t, of asciiLowerCase "onload None None"
         "[js ''python'', js ''copy'', js ''pylint'', js ''go'']"]
  have "languageUpdate asciiLowerCase (onload None None)
         [js ''python'', js ''copy'', js ''pylint'', js ''go''] (Some (js ''py''))
       = [js ''python'', js ''pylint'', js ''copy'']"
    unfolding p e by blast
  with t p show ?thesis by blast
qed

section \<open>Claims about the settings dialog\<close>

lemma settingInput_frame:
  "config (settingInput i s) = config s"
  "savedConfig (settingInput i s) = savedConfig s"
  "statistics (settingInput i s) = statistics s"
  "cachedCustomOrderLanguages (settingInput i s) = cachedCustomOrderLanguages s"
  "cachedOtherCustomLanguages (settingInput i s) = cachedOtherCustomLanguages s"
  "cachedExcludedLanguages (settingInput i s) = cachedExcludedLanguages s"
  by (cases i; simp split: option.splits)+

lemma fold_settingInput_frame:
  "config (fold settingInput is s) = config s"
  "savedConfig (fold settingInput is s) = savedConfig s"
  "statistics (fold settingInput is s) = statistics s"
  "cachedCustomOrderLanguages (fold settingInput is s) = cachedCustomOrderLanguages s"
  "cachedOtherCustomLanguages (fold settingInput is s) = cachedOtherCustomLanguages s"
  "cachedExcludedLanguages (fold settingInput is s) = cachedExcludedLanguages s"
  by (induction "is" arbitrary: s; simp add: settingInput_frame)+

lemma languageUpdate_reads:
  assumes "config s' = config s" "statistics s' = statistics s"
    "cachedCustomOrderLanguages s' = cachedCustomOrderLanguages s"
    "cachedOtherCustomLanguages s' = cachedOtherCustomLanguages s"
    "cachedExcludedLanguages s' = cachedExcludedLanguages s"
  shows "languageUpdate lc s' langs v = languageUpdate lc s langs v"
proof -
  have "matchPool s' langs = matchPool s langs"
    by (simp add: matchPool_def assms)
  then show ?thesis
    by (simp add: languageUpdate_def Let_def assms split: option.splits)
qed

text \<open>
  Claim C9. No sequence of writes to \<open>tempConfig\<close> changes \<open>config\<close>, the saved
  configuration or what \<open>languageUpdate\<close> returns. \<open>confirmCallback\<close> makes \<open>config\<close> the
  whole of \<open>tempConfig\<close>, saves it and recomputes the caches, and a later write to
  \<open>tempConfig\<close> does not reach the committed copy. \<open>destroyCallback\<close> makes \<open>tempConfig\<close>
  the committed \<open>config\<close> again, whatever was written before, and changes nothing else.
  After \<open>onload\<close> the two are equal.
\<close>

theorem edit_buffer_isolated:
  "config (fold settingInput inputs s) = config s
   \<and> savedConfig (fold settingInput inputs s) = savedConfig s
   \<and> languageUpdate lc (fold settingInput inputs s) langs v = languageUpdate lc s langs v
   \<and> config (confirmCallback s) = tempConfig s
   \<and> savedConfig (confirmCallback s) = Some (tempConfig s)
   \<and> tempConfig (confirmCallback s) = tempConfig s
   \<and> cachesCurrent (confirmCallback s)
   \<and> config (fold settingInput inputs (confirmCallback s)) = tempConfig s
   \<and> tempConfig (destroyCallback s) = config s
   \<and> config (destroyCallback s) = config s
   \<and> savedConfig (destroyCallback s) = savedConfig s
   \<and> destroyCallback (fold settingInput inputs (destroyCallback s)) = destroyCallback s
   \<and> tempConfig (onload stored st) = config (onload stored st)"
proof -
  have c: "config (confirmCallback s) = tempConfig s"
          "savedConfig (confirmCallback s) = Some (tempConfig s)"
          "tempConfig (confirmCallback s) = tempConfig s"
    by (simp_all add: confirmCallback_def parseAndCacheLanguages_def)
  have d: "tempConfig (destroyCallback s) = config s"
          "config (destroyCallback s) = config s"
          "savedConfig (destroyCallback s) = savedConfig s"
    by (simp_all add: destroyCallback_def)
  have u: "languageUpdate lc (fold settingInput inputs s) langs v = languageUpdate lc s langs v"
    by (rule languageUpdate_reads) (simp_all add: fold_settingInput_frame)
  have r: "destroyCallback (fold settingInput inputs t) = destroyCallback t" for t
  proof (induction inputs arbitrary: t)
    case Nil
    show ?case by simp
  next
    case (Cons i inputs)
    have "destroyCallback (settingInput i t) = destroyCallback t"
      by (cases i) (simp_all add: destroyCallback_def split: option.splits)
    with Cons show ?case by simp
  qed
  have rr: "destroyCallback (fold settingInput inputs (destroyCallback s)) = destroyCallback s"
    unfolding r by (simp add: destroyCallback_def)
  have o: "tempConfig (onload stored st) = config (onload stored st)"
    by (simp add: onload_def parseAndCacheLanguages_def Let_def)
  show ?thesis
    using c d u rr o confirmCallback_cachesCurrent[of s]
    by (simp add: fold_settingInput_frame)
qed

theorem edit_buffer_isolated_witness:
  "config (fold settingInput [CustomOrderInput (js ''rust''), FrequencyTopCountInput (Some 99),
                               FrequencyTopCountInput (Some 7), SortModeChange Custom]
             (onload None None)) = config (onload None None)
   \<and> tempConfig (fold settingInput [CustomOrderInput (js ''rust''), FrequencyTopCountInput (Some 99),
                               FrequencyTopCountInput (Some 7), SortModeChange Custom]
             (onload None None))
       = \<lparr>sortMode = Custom, customOrder = js ''rust'', frequencyTopCount = 7,
          frequencyDaysRange = 30, otherCustomLanguages = [], excludedLanguages = []\<rparr>
   \<and> config (confirmCallback (fold settingInput [CustomOrderInput (js ''rust''), FrequencyTopCountInput (Some 99),
                               FrequencyTopCountInput (Some 7), SortModeChange Custom]
             (onload None None)))
       = \<lparr>sortMode = Custom, customOrder = js ''rust'', frequencyTopCount = 7,
          frequencyDaysRange = 30, otherCustomLanguages = [], excludedLanguages = []\<rparr>"
proof -
  let ?is = "[CustomOrderInput (js ''rust''), FrequencyTopCountInput (Some 99),
              FrequencyTopCountInput (Some 7), SortModeChange Custom]"
  have t: "tempConfig (fold settingInput ?is (onload None None))
       = \<lparr>sortMode = Custom, customOrder = js ''rust'', frequencyTopCount = 7,
          frequencyDaysRange = 30, otherCustomLanguages = [], excludedLanguages = []\<rparr>"
    by code_simp
  from edit_buffer_isolated[of ?is "onload None None"]
  have a: "config (fold settingInput ?is (onload None None)) = config (onload None None)"
    by blast
  from edit_buffer_isolated[of "[]" "fold settingInput ?is (onload None None)"]
  have b: "config (confirmCallback (fold settingInput ?is (onload None None)))
             = tempConfig (fold settingInput ?is (onload None None))"
    by blast
  from a b t show ?thesis by simp
qed

section \<open>Claims about the canonicalisation\<close>

text \<open>
  What the helpers compute: the segments of \<open>splitComma\<close> have no comma and joined by
  commas they are the input; \<open>trim\<close> removes white space from both ends and nothing
  else. \<open>parseLanguagesInput\<close> returns at most 300 tokens, none for an absent or empty
  input.
\<close>

lemma splitComma_nonempty: "splitComma s \<noteq> []"
  by (induction s) (auto split: list.splits)

lemma splitComma_join:
  "concat (map (\<lambda>seg. seg @ [0x2C]) (splitComma s)) = s @ [0x2C]"
proof (induction s)
  case Nil
  show ?case by simp
next
  case (Cons u us)
  show ?case
  proof (cases "u = 0x2C")
    case True
    with Cons show ?thesis by simp
  next
    case False
    obtain seg segs where sp: "splitComma us = seg # segs"
      using splitComma_nonempty[of us] by (cases "splitComma us") auto
    with Cons False show ?thesis by simp
  qed
qed

lemma splitComma_no_comma: "seg \<in> set (splitComma s) \<Longrightarrow> 0x2C \<notin> set seg"
proof (induction s arbitrary: seg)
  case Nil
  then show ?case by simp
next
  case (Cons u us)
  obtain seg' segs where sp: "splitComma us = seg' # segs"
    using splitComma_nonempty[of us] by (cases "splitComma us") auto
  show ?case
  proof (cases "u = 0x2C")
    case True
    with Cons show ?thesis by auto
  next
    case False
    with Cons.prems sp have "seg = u # seg' \<or> seg \<in> set segs" by auto
    then show ?thesis
    proof
      assume "seg = u # seg'"
      moreover have "0x2C \<notin> set seg'" using Cons.IH[of seg'] sp by simp
      ultimately show ?thesis using False by auto
    next
      assume "seg \<in> set segs"
      then show ?thesis using Cons.IH[of seg] sp by simp
    qed
  qed
qed

lemma trim_decompose:
  "\<exists>a b. s = a @ trim s @ b \<and> (\<forall>u \<in> set a. isWhiteSpace u) \<and> (\<forall>u \<in> set b. isWhiteSpace u)"
proof -
  let ?d = "dropWhile isWhiteSpace s"
  let ?a = "takeWhile isWhiteSpace s"
  let ?b = "rev (takeWhile isWhiteSpace (rev ?d))"
  have 1: "s = ?a @ ?d" by simp
  have "rev ?d = takeWhile isWhiteSpace (rev ?d) @ dropWhile isWhiteSpace (rev ?d)" by simp
  then have "rev (rev ?d) = rev (takeWhile isWhiteSpace (rev ?d) @ dropWhile isWhiteSpace (rev ?d))"
    by (rule arg_cong)
  then have 2: "?d = trim s @ ?b"
    by (simp add: trim_def del: takeWhile_dropWhile_id)
  have "s = ?a @ trim s @ ?b" using 1 2 by metis
  moreover have "\<forall>u \<in> set ?a. isWhiteSpace u" by (auto dest: set_takeWhileD)
  moreover have "\<forall>u \<in> set ?b. isWhiteSpace u" by (auto dest: set_takeWhileD)
  ultimately show ?thesis by blast
qed

lemma trim_ends:
  "trim s \<noteq> [] \<Longrightarrow> \<not> isWhiteSpace (hd (trim s)) \<and> \<not> isWhiteSpace (last (trim s))"
proof -
  assume ne: "trim s \<noteq> []"
  let ?d = "dropWhile isWhiteSpace s"
  let ?e = "dropWhile isWhiteSpace (rev ?d)"
  from ne have e: "?e \<noteq> []" by (simp add: trim_def)
  then have l: "\<not> isWhiteSpace (hd ?e)" by (rule hd_dropWhile)
  have "last (trim s) = hd ?e" using e by (simp add: trim_def last_rev)
  with l have last: "\<not> isWhiteSpace (last (trim s))" by simp
  have dne: "?d \<noteq> []"
  proof
    assume d: "?d = []"
    have "?e = []" by (simp only: d rev.simps dropWhile.simps)
    with e show False by (simp only:)
  qed
  then have hdd: "\<not> isWhiteSpace (hd ?d)" by (rule hd_dropWhile)
  have "rev ?d = takeWhile isWhiteSpace (rev ?d) @ ?e" by simp
  then have "rev (rev ?d) = rev (takeWhile isWhiteSpace (rev ?d) @ ?e)" by (rule arg_cong)
  then have "?d = trim s @ rev (takeWhile isWhiteSpace (rev ?d))"
    by (simp add: trim_def del: takeWhile_dropWhile_id)
  then have "hd ?d = hd (trim s)" using ne by (metis hd_append2)
  with hdd last show ?thesis by simp
qed

lemma parseLanguagesInput_absent:
  "parseLanguagesInput None = []" "parseLanguagesInput (Some []) = []"
  by (simp_all add: parseLanguagesInput_def)

lemma parseLanguagesInput_length: "length (parseLanguagesInput input) \<le> 300"
proof (cases input)
  case None
  then show ?thesis by (simp add: parseLanguagesInput_def)
next
  case (Some i)
  have "length (filter P (map f (take 300 xs))) \<le> 300" for P and f :: "jsstring \<Rightarrow> jsstring" and xs
    by (rule order_trans[OF length_filter_le]) simp
  then show ?thesis using Some by (simp add: parseLanguagesInput_def Let_def)
qed


text \<open>
  Claim C6: the code at the failing input. The regular expression of the replacement
  matches the space and the backtick only, so a tab or a line feed inside a segment is
  kept where the claim (and the comment above the replacement) puts an underscore. A
  space and a backtick are replaced, as the last equation shows.
\<close>

theorem parseLanguagesInput_keeps_inner_whitespace:
  "parseLanguagesInput (Some (js ''a'' @ [0x09] @ js ''b, js'' @ [0x0A] @ js ''python''))
     = [js ''a'' @ [0x09] @ js ''b'', js ''js'' @ [0x0A] @ js ''python'']
   \<and> isWhiteSpace 0x09 \<and> isWhiteSpace 0x0A
   \<and> parseLanguagesInput (Some (js ''a b, c`d''))
     = [js ''a_b'', js ''c_d'']"
  by code_simp

section \<open>Recording a selection\<close>

lemma obj_read_Inherited:
  "obj_read m k = Inherited \<longleftrightarrow> obj_get m k = None \<and> k \<in> set objectPrototypeKeys"
  by (simp add: obj_read_def split: option.splits)

lemma obj_get_None: "obj_get m k = None \<longleftrightarrow> k \<notin> set (obj_keys m)"
  by (simp add: obj_get_def obj_keys_def map_of_eq_None_iff)

lemma obj_get_Some: "obj_get m k = Some v \<Longrightarrow> (k, v) \<in> set m"
  by (simp add: obj_get_def map_of_SomeD)

lemma recordLanguage_Inl:
  "obj_read (languages (statistics s)) language = Inherited \<Longrightarrow>
     recordLanguage currentDate s language = Inl TypeError"
  by (simp add: recordLanguage_def)

lemma recordLanguage_Inr:
  assumes "obj_read (languages (statistics s)) language \<noteq> Inherited"
  shows "recordLanguage currentDate s language =
     Inr (s\<lparr>statistics := updateFrequencyOrder
               ((statistics s)\<lparr>languages :=
                  obj_set language (recorded currentDate (languages (statistics s)) language)
                    (languages (statistics s))\<rparr>),
            savedStatistics := Some (updateFrequencyOrder
               ((statistics s)\<lparr>languages :=
                  obj_set language (recorded currentDate (languages (statistics s)) language)
                    (languages (statistics s))\<rparr>))\<rparr>)"
  using assms
  by (cases "obj_get (languages (statistics s)) language")
     (auto simp: recordLanguage_def recorded_def obj_read_def Let_def)

lemma recordLanguage_cases:
  "recordLanguage currentDate s language = Inl e \<Longrightarrow>
     e = TypeError \<and> obj_read (languages (statistics s)) language = Inherited"
  by (cases "obj_read (languages (statistics s)) language = Inherited")
     (simp_all add: recordLanguage_Inl recordLanguage_Inr)

lemma sum_list_ge_member:
  fixes xs :: "int list"
  shows "\<forall>x \<in> set xs. 0 \<le> x \<Longrightarrow> y \<in> set xs \<Longrightarrow> y \<le> sum_list xs"
proof (induction xs)
  case Nil
  then show ?case by simp
next
  case (Cons a xs)
  have "0 \<le> sum_list xs" using Cons.prems(1) by (simp add: sum_list_nonneg)
  with Cons show ?case by auto
qed

lemma recorded_exact:
  assumes ls: "ls = (case obj_get m language of
                       Some ls \<Rightarrow> ls | None \<Rightarrow> \<lparr>totalCount = Num 0, dates = []\<rparr>)"
      and nn: "\<forall>e \<in> set (dates ls). 0 \<le> snd e"
      and bound: "sum_list (map snd (dates ls)) < maxExact"
  shows "sum_list (map snd (dates (recorded today m language))) = sum_list (map snd (dates ls)) + 1"
    and "\<forall>e \<in> set (dates (recorded today m language)). 0 \<le> snd e"
    and "totalCount ls = Num (sum_list (map snd (dates ls)))
           \<Longrightarrow> totalCount (recorded today m language) = Num (sum_list (map snd (dates ls)) + 1)"
proof -
  define old where "old = (case obj_get (dates ls) today of None \<Rightarrow> 0 | Some n \<Rightarrow> n)"
  have total: "0 \<le> sum_list (map snd (dates ls))"
    by (rule sum_list_nonneg) (use nn in auto)
  have old: "0 \<le> old \<and> old \<le> sum_list (map snd (dates ls))"
  proof (cases "obj_get (dates ls) today")
    case None
    with total show ?thesis by (simp add: old_def)
  next
    case (Some n)
    from obj_get_Some[OF this] have mem: "(today, n) \<in> set (dates ls)" .
    with nn have "0 \<le> n" by force
    moreover have "n \<in> set (map snd (dates ls))"
      using mem by force
    then have "n \<le> sum_list (map snd (dates ls))"
      using nn by (intro sum_list_ge_member) simp_all
    ultimately show ?thesis using Some by (simp add: old_def)
  qed
  with bound have "\<bar>old + 1\<bar> \<le> maxExact"
    by simp
  then have r: "roundFinite (old + 1) = old + 1"
    by (rule roundFinite_exact)
  have d: "dates (recorded today m language) = obj_set today (old + 1) (dates ls)"
    unfolding recorded_def Let_def ls[symmetric] old_def[symmetric] r by simp
  show "sum_list (map snd (dates (recorded today m language))) = sum_list (map snd (dates ls)) + 1"
    unfolding d old_def by (rule sum_obj_set)
  show "\<forall>e \<in> set (dates (recorded today m language)). 0 \<le> snd e"
  proof
    fix e assume "e \<in> set (dates (recorded today m language))"
    then have "e \<in> set (obj_set today (old + 1) (dates ls))"
      by (simp only: d)
    from obj_set_others[OF this] show "0 \<le> snd e"
    proof
      assume "e = (today, old + 1)"
      with old show ?thesis by simp
    next
      assume "e \<in> set (dates ls)"
      with nn show ?thesis by simp
    qed
  qed
  show "totalCount (recorded today m language) = Num (sum_list (map snd (dates ls)) + 1)"
    if "totalCount ls = Num (sum_list (map snd (dates ls)))"
  proof -
    from total bound have "\<bar>sum_list (map snd (dates ls)) + 1\<bar> \<le> maxExact"
      by simp
    from roundDouble_exact[OF this] that show ?thesis
      by (simp add: recorded_def ls Let_def)
  qed
qed

lemma recordLanguage_languages:
  assumes "recordLanguage today s language = Inr s1"
  shows "languages (statistics s1)
           = obj_set language (recorded today (languages (statistics s)) language)
               (languages (statistics s))"
proof -
  from assms have ni: "obj_read (languages (statistics s)) language \<noteq> Inherited"
    by (auto simp: recordLanguage_Inl)
  from assms[unfolded recordLanguage_Inr[OF ni]]
  have "s1 = s\<lparr>statistics := updateFrequencyOrder
               ((statistics s)\<lparr>languages := obj_set language
                   (recorded today (languages (statistics s)) language) (languages (statistics s))\<rparr>),
            savedStatistics := Some (updateFrequencyOrder
               ((statistics s)\<lparr>languages := obj_set language
                   (recorded today (languages (statistics s)) language) (languages (statistics s))\<rparr>))\<rparr>"
    by simp
  then show ?thesis by simp
qed

lemma recordLanguage_totalsMatch:
  assumes r: "recordLanguage today s language = Inr s1"
      and tm: "totalsMatch (statistics s)"
      and safe: "safeCounts (maxExact - 1) (statistics s)"
  shows "totalsMatch (statistics s1)" and "safeCounts maxExact (statistics s1)"
proof -
  let ?m = "languages (statistics s)"
  define ls where "ls = (case obj_get ?m language of
                       Some ls \<Rightarrow> ls | None \<Rightarrow> \<lparr>totalCount = Num 0, dates = []\<rparr>)"
  have old: "(\<forall>e \<in> set (dates ls). 0 \<le> snd e) \<and> sum_list (map snd (dates ls)) < maxExact
               \<and> totalCount ls = Num (sum_list (map snd (dates ls)))"
  proof (cases "obj_get ?m language")
    case None
    then show ?thesis by (simp add: ls_def maxExact_def)
  next
    case (Some x)
    then have ls: "ls = x" by (simp add: ls_def)
    from obj_get_Some[OF Some] have mem: "(language, ls) \<in> set ?m"
      by (simp add: ls)
    from safe[unfolded safeCounts_def, rule_format, OF mem]
         tm[unfolded totalsMatch_def, rule_format, OF mem]
    show ?thesis by simp
  qed
  note ex = recorded_exact[OF ls_def, of today]
  from old have new: "sum_list (map snd (dates (recorded today ?m language)))
                        = sum_list (map snd (dates ls)) + 1"
      "\<forall>e \<in> set (dates (recorded today ?m language)). 0 \<le> snd e"
      "totalCount (recorded today ?m language) = Num (sum_list (map snd (dates ls)) + 1)"
    using ex by simp_all
  have others: "p = (language, recorded today ?m language) \<or> p \<in> set ?m"
    if "p \<in> set (languages (statistics s1))" for p
    using that unfolding recordLanguage_languages[OF r] by (rule obj_set_others)
  show "totalsMatch (statistics s1)"
    unfolding totalsMatch_def
  proof
    fix p assume "p \<in> set (languages (statistics s1))"
    from others[OF this] show "totalCount (snd p) = Num (sum_list (map snd (dates (snd p))))"
    proof
      assume "p = (language, recorded today ?m language)"
      with new(1,3) show ?thesis by simp
    next
      assume "p \<in> set ?m"
      from tm[unfolded totalsMatch_def, rule_format, OF this] show ?thesis .
    qed
  qed
  show "safeCounts maxExact (statistics s1)"
    unfolding safeCounts_def
  proof
    fix p assume "p \<in> set (languages (statistics s1))"
    from others[OF this]
    show "(\<forall>e \<in> set (dates (snd p)). 0 \<le> snd e) \<and> sum_list (map snd (dates (snd p))) \<le> maxExact"
    proof
      assume "p = (language, recorded today ?m language)"
      with new(1,2) old show ?thesis by simp
    next
      assume "p \<in> set ?m"
      from safe[unfolded safeCounts_def, rule_format, OF this] show ?thesis by simp
    qed
  qed
qed

lemma recordLanguage_keys:
  assumes "recordLanguage currentDate s language = Inr s1"
  shows "set (obj_keys (languages (statistics s1))) = insert language (set (obj_keys (languages (statistics s))))"
    and "set (frequencyOrder (statistics s1)) = insert language (set (obj_keys (languages (statistics s))))"
    and "savedStatistics s1 = Some (statistics s1)"
    and "config s1 = config s"
proof -
  from assms have ni: "obj_read (languages (statistics s)) language \<noteq> Inherited"
    by (auto simp: recordLanguage_Inl)
  from assms have s1: "s1 = s\<lparr>statistics := updateFrequencyOrder
               ((statistics s)\<lparr>languages :=
                  obj_set language (recorded currentDate (languages (statistics s)) language)
                    (languages (statistics s))\<rparr>),
            savedStatistics := Some (updateFrequencyOrder
               ((statistics s)\<lparr>languages :=
                  obj_set language (recorded currentDate (languages (statistics s)) language)
                    (languages (statistics s))\<rparr>))\<rparr>"
    unfolding recordLanguage_Inr[OF ni] by simp
  show "set (obj_keys (languages (statistics s1))) = insert language (set (obj_keys (languages (statistics s))))"
    unfolding s1 by (simp add: keys_obj_set)
  show "set (frequencyOrder (statistics s1)) = insert language (set (obj_keys (languages (statistics s))))"
    unfolding s1 by (simp add: frequencyOrder_update keys_obj_set)
  show "savedStatistics s1 = Some (statistics s1)"
    unfolding s1 by simp
  show "config s1 = config s"
    unfolding s1 by simp
qed

lemma sum_list_filter_le:
  fixes xs :: "(jsstring \<times> int) list"
  assumes "\<forall>e \<in> set xs. 0 \<le> snd e"
  shows "sum_list (map snd (filter P xs)) \<le> sum_list (map snd xs)"
  using assms by (induction xs) auto

lemma cleanup_totalsMatch:
  assumes c: "cleanupExpiredStatistics now s = Inr s'"
      and safe: "safeCounts bound (statistics s)" "bound \<le> maxExact"
  shows "totalsMatch (statistics s')" and "safeCounts bound (statistics s')"
proof -
  obtain cutoff where cut: "cutoffDateString now (config s) = Some cutoff"
    using c by (cases "cutoffDateString now (config s)") (simp_all add: cleanup_None)
  have ent: "(\<forall>e \<in> set (dates (snd p)). 0 \<le> snd e)
               \<and> sum_list (map snd (dates (snd p))) \<le> bound
               \<and> totalCount (snd p) = Num (sum_list (map snd (dates (snd p))))"
    if "p \<in> set (languages (statistics s'))" for p
  proof -
    from cleanup_entries[OF cut c that] obtain ls :: LanguageStats where
      ls: "(fst p, ls) \<in> set (languages (statistics s))"
          "dates (snd p) = filter (notExpired cutoff) (dates ls)"
          "totalCount (snd p) = jsSum (map snd (dates (snd p)))"
      by blast
    from safe(1)[unfolded safeCounts_def, rule_format, OF ls(1)]
    have old: "\<forall>e \<in> set (dates ls). 0 \<le> snd e" "sum_list (map snd (dates ls)) \<le> bound"
      by simp_all
    have nn: "\<forall>e \<in> set (dates (snd p)). 0 \<le> snd e"
      using old(1) by (simp add: ls(2))
    have le: "sum_list (map snd (dates (snd p))) \<le> bound"
      using sum_list_filter_le[OF old(1), of "notExpired cutoff"] old(2) by (simp add: ls(2))
    from nn have "\<forall>x \<in> set (map snd (dates (snd p))). 0 \<le> x"
      by simp
    from jsSum_exact[OF this] le safe(2) ls(3)
    have "totalCount (snd p) = Num (sum_list (map snd (dates (snd p))))"
      by simp
    with nn le show ?thesis by (intro conjI)
  qed
  show "totalsMatch (statistics s')"
    unfolding totalsMatch_def using ent by blast
  show "safeCounts bound (statistics s')"
    unfolding safeCounts_def using ent by blast
qed

lemma cleanup_frame:
  assumes "cleanupExpiredStatistics now s = Inr s'"
  shows "config s' = config s" "savedStatistics s' = savedStatistics s"
    "savedConfig s' = savedConfig s" "tempConfig s' = tempConfig s"
proof -
  obtain cutoff where c: "cutoffDateString now (config s) = Some cutoff"
    using assms by (cases "cutoffDateString now (config s)") (simp_all add: cleanup_None)
  from assms[unfolded cleanup_Some[OF c]]
  show "config s' = config s" "savedStatistics s' = savedStatistics s"
    "savedConfig s' = savedConfig s" "tempConfig s' = tempConfig s"
    by auto
qed

lemma cleanup_keys_subset:
  assumes "cleanupExpiredStatistics now s = Inr s'"
  shows "set (obj_keys (languages (statistics s'))) \<subseteq> set (obj_keys (languages (statistics s)))"
proof (cases "cutoffDateString now (config s)")
  case None
  with assms show ?thesis by (simp add: cleanup_None)
next
  case (Some cutoff)
  have "set (filter P (map f xs)) \<subseteq> set (map f xs)" for P and f :: "'a \<Rightarrow> 'b" and xs
    by auto
  then show ?thesis
    unfolding cleanup_languages[OF Some assms] obj_keys_def
    by (force simp: image_iff)
qed

lemma languageChange_blank:
  "isBlank language \<Longrightarrow>
     languageChange now now' s language =
       (case cleanupExpiredStatistics now' s of Inl e \<Rightarrow> Inl (e, s) | Inr s2 \<Rightarrow> Inr s2)"
  by (simp add: languageChange_def)

lemma languageChange_Inr:
  assumes "languageChange now now' s language = Inr s'" "\<not> isBlank language"
  shows "\<exists>currentDate s1. isoDate now = Some currentDate
           \<and> recordLanguage currentDate s language = Inr s1
           \<and> cleanupExpiredStatistics now' s1 = Inr s'"
  using assms
  by (auto simp: languageChange_def Let_def split: option.splits sum.splits)

lemma languageChange_cleanup:
  assumes "languageChange now now' s language = Inr s'"
  shows "\<exists>s1. cleanupExpiredStatistics now' s1 = Inr s' \<and> config s1 = config s"
proof (cases "isBlank language")
  case True
  with assms show ?thesis
    by (auto simp: languageChange_blank split: sum.splits)
next
  case False
  from languageChange_Inr[OF assms False] obtain currentDate s1 where
    "recordLanguage currentDate s language = Inr s1" "cleanupExpiredStatistics now' s1 = Inr s'"
    by blast
  with recordLanguage_keys(4) show ?thesis by blast
qed

lemma cachesCurrent_frame:
  assumes "config s' = config s"
    "cachedCustomOrderLanguages s' = cachedCustomOrderLanguages s"
    "cachedOtherCustomLanguages s' = cachedOtherCustomLanguages s"
    "cachedExcludedLanguages s' = cachedExcludedLanguages s"
  shows "cachesCurrent s' = cachesCurrent s"
  by (simp add: cachesCurrent_def assms)

lemma settingInput_cachesCurrent: "cachesCurrent (settingInput i s) = cachesCurrent s"
  by (rule cachesCurrent_frame) (simp_all add: settingInput_frame)

lemma destroyCallback_cachesCurrent: "cachesCurrent (destroyCallback s) = cachesCurrent s"
  by (rule cachesCurrent_frame) (simp_all add: destroyCallback_def)

lemma cleanup_cachesCurrent:
  assumes "cleanupExpiredStatistics now s = Inr s'"
  shows "cachesCurrent s' = cachesCurrent s"
proof -
  obtain cutoff where c: "cutoffDateString now (config s) = Some cutoff"
    using assms by (cases "cutoffDateString now (config s)") (simp_all add: cleanup_None)
  from assms[unfolded cleanup_Some[OF c]] show ?thesis
    by (intro cachesCurrent_frame) auto
qed

lemma recordLanguage_cachesCurrent:
  assumes "recordLanguage currentDate s language = Inr s1"
  shows "cachesCurrent s1 = cachesCurrent s"
proof -
  from assms have ni: "obj_read (languages (statistics s)) language \<noteq> Inherited"
    by (auto simp: recordLanguage_Inl)
  from assms[unfolded recordLanguage_Inr[OF ni]] show ?thesis
    by (intro cachesCurrent_frame) auto
qed

lemma languageChange_cachesCurrent:
  assumes "languageChange now now' s language = Inr s'"
  shows "cachesCurrent s' = cachesCurrent s"
proof (cases "isBlank language")
  case True
  with assms have "cleanupExpiredStatistics now' s = Inr s'"
    by (auto simp: languageChange_blank split: sum.splits)
  then show ?thesis by (rule cleanup_cachesCurrent)
next
  case False
  from languageChange_Inr[OF assms False] obtain currentDate s1 where
    "recordLanguage currentDate s language = Inr s1" "cleanupExpiredStatistics now' s1 = Inr s'"
    by blast
  then show ?thesis
    using recordLanguage_cachesCurrent cleanup_cachesCurrent by simp
qed

lemma isoDate_Some: "isoDate t \<noteq> None \<longleftrightarrow> \<bar>t\<bar> \<le> 8640000000000000"
  by (simp add: isoDate_def split: prod.splits)

lemma languageChange_returns:
  assumes "isoDate now \<noteq> None" "cutoffDateString now' (config s) \<noteq> None"
      and "isBlank language \<or> language \<notin> set objectPrototypeKeys
             \<or> language \<in> set (obj_keys (languages (statistics s)))"
  shows "\<exists>s'. languageChange now now' s language = Inr s'"
proof -
  from assms(1) obtain today where today: "isoDate now = Some today" by auto
  have "\<exists>s1. (if \<not> isBlank language then recordLanguage today s language else Inr s) = Inr s1
              \<and> config s1 = config s"
  proof (cases "isBlank language")
    case True
    then show ?thesis by simp
  next
    case False
    with assms(3) have ni: "obj_read (languages (statistics s)) language \<noteq> Inherited"
      by (auto simp: obj_read_Inherited obj_get_None)
    from recordLanguage_Inr[OF ni, of today] obtain s1 where
      r: "recordLanguage today s language = Inr s1"
      by blast
    with recordLanguage_keys(4)[OF r] False show ?thesis by simp
  qed
  then obtain s1 where s1: "(if \<not> isBlank language then recordLanguage today s language else Inr s) = Inr s1"
      and cf: "config s1 = config s"
    by blast
  from assms(2) cf obtain cutoff where "cutoffDateString now' (config s1) = Some cutoff"
    by auto
  from cleanup_Some[OF this] obtain s' where c: "cleanupExpiredStatistics now' s1 = Inr s'"
    by blast
  have "languageChange now now' s language = Inr s'"
    unfolding languageChange_def Let_def today option.case s1 sum.case c ..
  then show ?thesis ..
qed

lemma onload_statistics: "statistics (onload storedConfig (Some st)) = st"
  unfolding onload_def Let_def parseAndCacheLanguages_def by simp

lemma cleanup_Inl:
  "cleanupExpiredStatistics now s = Inl e \<Longrightarrow> e = RangeError \<and> cutoffDateString now (config s) = None"
  by (cases "cutoffDateString now (config s)") (simp_all add: cleanup_None cleanup_Some)

lemma languageChange_Inl:
  assumes "languageChange now now' s language = Inl (e, s1)"
  shows "(e = TypeError \<and> s1 = s \<and> \<not> isBlank language \<and> language \<in> set objectPrototypeKeys
            \<and> language \<notin> set (obj_keys (languages (statistics s))))
         \<or> (e = RangeError
              \<and> ((\<not> isBlank language \<and> isoDate now = None \<and> s1 = s)
                 \<or> cutoffDateString now' (config s) = None))"
proof (cases "isBlank language")
  case True
  with assms obtain e' where "cleanupExpiredStatistics now' s = Inl e'" "e = e'"
    by (cases "cleanupExpiredStatistics now' s") (simp_all add: languageChange_blank)
  with cleanup_Inl[of now' s e'] show ?thesis by simp
next
  case False
  show ?thesis
  proof (cases "isoDate now")
    case None
    with assms False show ?thesis
      by (simp add: languageChange_def)
  next
    case (Some today)
    show ?thesis
    proof (cases "recordLanguage today s language")
      case (Inl e')
      from recordLanguage_cases[OF Inl] have "e' = TypeError"
          "obj_read (languages (statistics s)) language = Inherited"
        by simp_all
      moreover from assms Some Inl False have "e = e'" "s1 = s"
        by (simp_all add: languageChange_def)
      ultimately show ?thesis
        using False by (simp add: obj_read_Inherited obj_get_None)
    next
      case (Inr s2)
      from assms Some Inr False obtain e' where "cleanupExpiredStatistics now' s2 = Inl e'" "e = e'"
        by (cases "cleanupExpiredStatistics now' s2") (simp_all add: languageChange_def)
      with cleanup_Inl[of now' s2 e'] recordLanguage_keys(4)[OF Inr] show ?thesis
        by simp
    qed
  qed
qed

lemma languageChange_totalsMatch:
  assumes "languageChange now now' s language = Inr s'"
      and "totalsMatch (statistics s)"
      and "safeCounts (maxExact - 1) (statistics s)"
  shows "totalsMatch (statistics s')"
proof (cases "isBlank language")
  case True
  with assms(1) have c: "cleanupExpiredStatistics now' s = Inr s'"
    by (auto simp: languageChange_blank split: sum.splits)
  show ?thesis
    by (rule cleanup_totalsMatch(1)[OF c assms(3)]) simp
next
  case False
  from languageChange_Inr[OF assms(1) False] obtain today s1 where
    r: "recordLanguage today s language = Inr s1"
    and c: "cleanupExpiredStatistics now' s1 = Inr s'"
    by blast
  show ?thesis
    by (rule cleanup_totalsMatch(1)[OF c recordLanguage_totalsMatch(2)[OF r assms(2,3)]]) simp
qed

section \<open>Claims about when pruning runs and what is recorded\<close>

text \<open>
  Claim C5, as stated, fails. \<open>languageUpdate\<close> does not call
  \<open>cleanupExpiredStatistics\<close>: it reads \<open>frequencyOrder\<close> as it is stored. After one
  selection of cobol on 2020-01-01 the state pins cobol in every later ordering, also
  on 2025-10-25, when pruning would have removed it.
\<close>

theorem stale_order_read_without_pruning:
  "languageChange 1577836800000 1577836800000 (onload None None) (js ''cobol'') = Inr staleState
   \<and> languageUpdate asciiLowerCase staleState [js ''c''] None = [js ''cobol'', js ''c'']
   \<and> map_sum id (\<lambda>s. languageUpdate asciiLowerCase s [js ''c''] None)
         (cleanupExpiredStatistics 1761350400000 staleState) = Inr [js ''c'']"
  by code_simp

text \<open>
  Claim C5, amended. Pruning is the last step of \<open>languageChange\<close> and is on no other
  path. A \<open>languageChange\<close> that returns, with the clock at \<open>now'\<close> in its last step,
  returns what \<open>cleanupExpiredStatistics\<close> makes of the state after the recording (of the
  state it started in, for a blank language): it has pruned with the cutoff of that moment, the UTC calendar day \<open>frequencyDaysRange\<close> days
  before the day of \<open>now'\<close>: every stored day entry is not before that day, every
  \<open>totalCount\<close> is the sum of the entries kept, as the loop adds them, and is not zero,
  \<open>frequencyOrder\<close> is the order of this pruned state, and the prefix a following
  \<open>languageUpdate\<close> pins is made of languages of this state. It returns unless it
  throws for the name of a member of \<open>Object.prototype\<close> that is not tracked, which
  leaves the state as it was, or for a date outside the range of \<open>Date\<close>.
  \<open>languageUpdate\<close> does not prune: what it returns depends on the statistics through
  the stored \<open>frequencyOrder\<close> only, not on the day entries, the totals or a clock;
  \<open>onload\<close> takes the stored statistics as they are, and the callbacks of the settings
  dialog leave the statistics as they are.
\<close>

theorem languageChange_prunes:
  "(case languageChange now now' s language of
      Inl (e, s1) \<Rightarrow>
        (e = TypeError \<and> s1 = s \<and> \<not> isBlank language \<and> language \<in> set objectPrototypeKeys
           \<and> language \<notin> set (obj_keys (languages (statistics s))))
        \<or> (e = RangeError
             \<and> ((\<not> isBlank language \<and> isoDate now = None \<and> s1 = s)
                \<or> isoDate (now' - frequencyDaysRange (config s) * 24 * 60 * 60 * 1000) = None))
    | Inr s' \<Rightarrow>
        (\<exists>s1. (if isBlank language then s1 = s
                else (\<exists>today. isoDate now = Some today
                        \<and> recordLanguage today s language = Inr s1))
              \<and> cleanupExpiredStatistics now' s1 = Inr s')
        \<and> (\<exists>cutoff. isoDate (now' - frequencyDaysRange (config s) * 24 * 60 * 60 * 1000) = Some cutoff
           \<and> cutoff = isoDay (now' div 86400000 - frequencyDaysRange (config s))
           \<and> config s' = config s
           \<and> (\<forall>p \<in> set (languages (statistics s')).
                  (\<forall>e \<in> set (dates (snd p)). \<not> fst e < cutoff)
                \<and> totalCount (snd p) = jsSum (map snd (dates (snd p)))
                \<and> totalCount (snd p) \<noteq> Num 0)
           \<and> statistics s' = updateFrequencyOrder (statistics s')
           \<and> (\<forall>l \<in> set (slice0 (frequencyOrder (statistics s')) (frequencyTopCount (config s'))).
                  \<exists>ls. (l, ls) \<in> set (languages (statistics s'))
                      \<and> (\<forall>e \<in> set (dates ls). \<not> fst e < cutoff)
                      \<and> totalCount ls = jsSum (map snd (dates ls))
                      \<and> totalCount ls \<noteq> Num 0)))
   \<and> (config sa = config sb
        \<and> cachedCustomOrderLanguages sa = cachedCustomOrderLanguages sb
        \<and> cachedOtherCustomLanguages sa = cachedOtherCustomLanguages sb
        \<and> cachedExcludedLanguages sa = cachedExcludedLanguages sb
        \<and> frequencyOrder (statistics sa) = frequencyOrder (statistics sb)
       \<longrightarrow> languageUpdate lc sa langs v = languageUpdate lc sb langs v)
   \<and> statistics (onload storedConfig (Some st)) = st
   \<and> statistics (settingInput i s) = statistics s
   \<and> statistics (confirmCallback s) = statistics s
   \<and> statistics (destroyCallback s) = statistics s"
proof -
  have update: "config sa = config sb
        \<and> cachedCustomOrderLanguages sa = cachedCustomOrderLanguages sb
        \<and> cachedOtherCustomLanguages sa = cachedOtherCustomLanguages sb
        \<and> cachedExcludedLanguages sa = cachedExcludedLanguages sb
        \<and> frequencyOrder (statistics sa) = frequencyOrder (statistics sb)
       \<longrightarrow> languageUpdate lc sa langs v = languageUpdate lc sb langs v"
  proof
    assume h: "config sa = config sb
        \<and> cachedCustomOrderLanguages sa = cachedCustomOrderLanguages sb
        \<and> cachedOtherCustomLanguages sa = cachedOtherCustomLanguages sb
        \<and> cachedExcludedLanguages sa = cachedExcludedLanguages sb
        \<and> frequencyOrder (statistics sa) = frequencyOrder (statistics sb)"
    then have "matchPool sa langs = matchPool sb langs"
      by (simp add: matchPool_def)
    with h show "languageUpdate lc sa langs v = languageUpdate lc sb langs v"
      by (simp add: languageUpdate_def Let_def split: option.splits)
  qed
  have frame: "statistics (onload storedConfig (Some st)) = st"
      "statistics (settingInput i s) = statistics s"
      "statistics (confirmCallback s) = statistics s"
      "statistics (destroyCallback s) = statistics s"
    by (simp_all add: settingInput_frame confirmCallback_def destroyCallback_def
          onload_statistics parseAndCacheLanguages_def)
  have main: "case languageChange now now' s language of
      Inl (e, s1) \<Rightarrow>
        (e = TypeError \<and> s1 = s \<and> \<not> isBlank language \<and> language \<in> set objectPrototypeKeys
           \<and> language \<notin> set (obj_keys (languages (statistics s))))
        \<or> (e = RangeError
             \<and> ((\<not> isBlank language \<and> isoDate now = None \<and> s1 = s)
                \<or> isoDate (now' - frequencyDaysRange (config s) * 24 * 60 * 60 * 1000) = None))
    | Inr s' \<Rightarrow>
        (\<exists>s1. (if isBlank language then s1 = s
                else (\<exists>today. isoDate now = Some today
                        \<and> recordLanguage today s language = Inr s1))
              \<and> cleanupExpiredStatistics now' s1 = Inr s')
        \<and> (\<exists>cutoff. isoDate (now' - frequencyDaysRange (config s) * 24 * 60 * 60 * 1000) = Some cutoff
           \<and> cutoff = isoDay (now' div 86400000 - frequencyDaysRange (config s))
           \<and> config s' = config s
           \<and> (\<forall>p \<in> set (languages (statistics s')).
                  (\<forall>e \<in> set (dates (snd p)). \<not> fst e < cutoff)
                \<and> totalCount (snd p) = jsSum (map snd (dates (snd p)))
                \<and> totalCount (snd p) \<noteq> Num 0)
           \<and> statistics s' = updateFrequencyOrder (statistics s')
           \<and> (\<forall>l \<in> set (slice0 (frequencyOrder (statistics s')) (frequencyTopCount (config s'))).
                  \<exists>ls. (l, ls) \<in> set (languages (statistics s'))
                      \<and> (\<forall>e \<in> set (dates ls). \<not> fst e < cutoff)
                      \<and> totalCount ls = jsSum (map snd (dates ls))
                      \<and> totalCount ls \<noteq> Num 0))"
  proof (cases "languageChange now now' s language")
    case (Inl q)
    obtain e s1 where q: "q = (e, s1)" by (cases q)
    from languageChange_Inl[OF Inl[unfolded q]] show ?thesis
      unfolding Inl q by (simp add: cutoffDateString_def)
  next
    case (Inr s')
    from languageChange_cleanup[OF Inr] obtain s1 where
      c: "cleanupExpiredStatistics now' s1 = Inr s'" and cf: "config s1 = config s"
      by blast
    have cf': "config s' = config s"
      using cleanup_config[OF c] cf by simp
    obtain cutoff where cut: "cutoffDateString now' (config s1) = Some cutoff"
      using c by (cases "cutoffDateString now' (config s1)") (simp_all add: cleanup_None)
    have iso: "isoDate (now' - frequencyDaysRange (config s) * 24 * 60 * 60 * 1000) = Some cutoff"
      using cut cf by (simp add: cutoffDateString_def)
    have day: "cutoff = isoDay (now' div 86400000 - frequencyDaysRange (config s))"
      using cutoff_day[OF cut] cf by simp
    have ent: "(\<forall>e \<in> set (dates (snd p)). \<not> fst e < cutoff)
                \<and> totalCount (snd p) = jsSum (map snd (dates (snd p)))
                \<and> totalCount (snd p) \<noteq> Num 0"
      if "p \<in> set (languages (statistics s'))" for p
    proof -
      from cleanup_entries[OF cut c that] obtain ls :: LanguageStats where
        "dates (snd p) = filter (notExpired cutoff) (dates ls)"
        "totalCount (snd p) = jsSum (map snd (dates (snd p)))"
        "totalCount (snd p) \<noteq> Num 0"
        by blast
      then show ?thesis by (simp add: notExpired_def)
    qed
    note ord = cleanup_order[OF c]
    have top: "\<exists>ls. (l, ls) \<in> set (languages (statistics s'))
                      \<and> (\<forall>e \<in> set (dates ls). \<not> fst e < cutoff)
                      \<and> totalCount ls = jsSum (map snd (dates ls))
                      \<and> totalCount ls \<noteq> Num 0"
      if "l \<in> set (slice0 (frequencyOrder (statistics s')) (frequencyTopCount (config s')))" for l
    proof -
      have "frequencyOrder (statistics s') = frequencyOrder (updateFrequencyOrder (statistics s'))"
        by (rule arg_cong[OF ord])
      moreover have "l \<in> set (frequencyOrder (statistics s'))"
        by (rule subsetD[OF set_slice0 that])
      ultimately have "l \<in> set (obj_keys (languages (statistics s')))"
        by (simp add: frequencyOrder_update)
      then have "l \<in> fst ` set (languages (statistics s'))"
        by (simp add: obj_keys_def)
      then obtain p where p: "p \<in> set (languages (statistics s'))" "l = fst p"
        by (rule imageE)
      define ls where "ls = snd p"
      from p have m: "(l, ls) \<in> set (languages (statistics s'))"
        by (simp add: ls_def)
      from ent[OF m, unfolded snd_conv] m show ?thesis by blast
    qed
    have "\<exists>cutoff. isoDate (now' - frequencyDaysRange (config s) * 24 * 60 * 60 * 1000) = Some cutoff
           \<and> cutoff = isoDay (now' div 86400000 - frequencyDaysRange (config s))
           \<and> config s' = config s
           \<and> (\<forall>p \<in> set (languages (statistics s')).
                  (\<forall>e \<in> set (dates (snd p)). \<not> fst e < cutoff)
                \<and> totalCount (snd p) = jsSum (map snd (dates (snd p)))
                \<and> totalCount (snd p) \<noteq> Num 0)
           \<and> statistics s' = updateFrequencyOrder (statistics s')
           \<and> (\<forall>l \<in> set (slice0 (frequencyOrder (statistics s')) (frequencyTopCount (config s'))).
                  \<exists>ls. (l, ls) \<in> set (languages (statistics s'))
                      \<and> (\<forall>e \<in> set (dates ls). \<not> fst e < cutoff)
                      \<and> totalCount ls = jsSum (map snd (dates ls))
                      \<and> totalCount ls \<noteq> Num 0)"
    proof (rule exI[of _ cutoff], intro conjI)
      show "isoDate (now' - frequencyDaysRange (config s) * 24 * 60 * 60 * 1000) = Some cutoff"
        by (rule iso)
      show "cutoff = isoDay (now' div 86400000 - frequencyDaysRange (config s))"
        by (rule day)
      show "config s' = config s"
        by (rule cf')
      show "\<forall>p \<in> set (languages (statistics s')).
                  (\<forall>e \<in> set (dates (snd p)). \<not> fst e < cutoff)
                \<and> totalCount (snd p) = jsSum (map snd (dates (snd p)))
                \<and> totalCount (snd p) \<noteq> Num 0"
        using ent by (intro ballI)
      show "statistics s' = updateFrequencyOrder (statistics s')"
        by (rule ord)
      show "\<forall>l \<in> set (slice0 (frequencyOrder (statistics s')) (frequencyTopCount (config s'))).
                  \<exists>ls. (l, ls) \<in> set (languages (statistics s'))
                      \<and> (\<forall>e \<in> set (dates ls). \<not> fst e < cutoff)
                      \<and> totalCount ls = jsSum (map snd (dates ls))
                      \<and> totalCount ls \<noteq> Num 0"
        using top by (intro ballI)
    qed
    moreover have "\<exists>s1. (if isBlank language then s1 = s
                else (\<exists>today. isoDate now = Some today
                        \<and> recordLanguage today s language = Inr s1))
              \<and> cleanupExpiredStatistics now' s1 = Inr s'"
    proof (cases "isBlank language")
      case True
      with Inr have "cleanupExpiredStatistics now' s = Inr s'"
        by (auto simp: languageChange_blank split: sum.splits)
      with True show ?thesis by simp
    next
      case False
      from languageChange_Inr[OF Inr False] False show ?thesis by auto
    qed
    ultimately show ?thesis
      unfolding Inr sum.case by (rule conjI[rotated])
  qed
  from main update frame show ?thesis by (intro conjI)
qed

theorem languageChange_prunes_witness:
  "frequencyDaysRange (config shortWindowState) = 7
   \<and> isoDate (1761350400000 - 7 * 24 * 60 * 60 * 1000) = Some (js ''2025-10-18'')
   \<and> languageChange 1761350400000 1761350400000 shortWindowState (js ''go'')
     = Inr (shortWindowState
         \<lparr>statistics := \<lparr>frequencyOrder = [js ''python'', js ''go''],
             languages = [(js ''python'', \<lparr>totalCount = Num 2, dates = [(js ''2025-10-20'', 2)]\<rparr>),
                          (js ''go'', \<lparr>totalCount = Num 1, dates = [(js ''2025-10-25'', 1)]\<rparr>)]\<rparr>,
          savedStatistics := Some \<lparr>frequencyOrder = [js ''old'', js ''python'', js ''go''],
             languages =
               [(js ''old'', \<lparr>totalCount = Num 4, dates = [(js ''2025-09-24'', 4)]\<rparr>),
                (js ''python'', \<lparr>totalCount = Num 4,
                   dates = [(js ''2025-08-01'', 1), (js ''2025-09-25'', 1), (js ''2025-10-20'', 2)]\<rparr>),
                (js ''go'', \<lparr>totalCount = Num 1, dates = [(js ''2025-10-25'', 1)]\<rparr>)]\<rparr>\<rparr>)
   \<and> isoDay (1761350400000 div 86400000 - 7) = js ''2025-10-18''
   \<and> languageChange 1761350400000 1761350400000 staleState (js ''constructor'')
     = Inl (TypeError, staleState)
   \<and> js ''constructor'' \<in> set objectPrototypeKeys
   \<and> languageUpdate asciiLowerCase staleState [js ''c''] None = [js ''cobol'', js ''c'']"
proof -
  let ?s' = "shortWindowState
         \<lparr>statistics := \<lparr>frequencyOrder = [js ''python'', js ''go''],
             languages = [(js ''python'', \<lparr>totalCount = Num 2, dates = [(js ''2025-10-20'', 2)]\<rparr>),
                          (js ''go'', \<lparr>totalCount = Num 1, dates = [(js ''2025-10-25'', 1)]\<rparr>)]\<rparr>,
          savedStatistics := Some \<lparr>frequencyOrder = [js ''old'', js ''python'', js ''go''],
             languages =
               [(js ''old'', \<lparr>totalCount = Num 4, dates = [(js ''2025-09-24'', 4)]\<rparr>),
                (js ''python'', \<lparr>totalCount = Num 4,
                   dates = [(js ''2025-08-01'', 1), (js ''2025-09-25'', 1), (js ''2025-10-20'', 2)]\<rparr>),
                (js ''go'', \<lparr>totalCount = Num 1, dates = [(js ''2025-10-25'', 1)]\<rparr>)]\<rparr>\<rparr>"
  have w: "frequencyDaysRange (config shortWindowState) = 7"
    by code_simp
  have c: "isoDate (1761350400000 - 7 * 24 * 60 * 60 * 1000) = Some (js ''2025-10-18'')"
    by code_simp
  have r: "languageChange 1761350400000 1761350400000 shortWindowState (js ''go'') = Inr ?s'"
    by code_simp
  have t: "languageChange 1761350400000 1761350400000 staleState (js ''constructor'')
             = Inl (TypeError, staleState)"
    by code_simp
  have u: "languageUpdate asciiLowerCase staleState [js ''c''] None = [js ''cobol'', js ''c'']"
    by code_simp
  from languageChange_prunes[where now = 1761350400000 and now' = 1761350400000
         and s = shortWindowState and language = "js ''go''"
         and sa = staleState and sb = staleState and lc = asciiLowerCase and langs = "[]"
         and v = None and i = "SortModeChange Custom" and storedConfig = None
         and st = "statistics staleState"]
  obtain cutoff where "Some (js ''2025-10-18'') = Some cutoff"
      "cutoff = isoDay (1761350400000 div 86400000 - 7)"
    unfolding r sum.case w c by blast
  then have d: "isoDay (1761350400000 div 86400000 - 7) = js ''2025-10-18''"
    by simp
  from languageChange_prunes[where now = 1761350400000 and now' = 1761350400000
         and s = staleState and language = "js ''constructor''"
         and sa = staleState and sb = staleState and lc = asciiLowerCase and langs = "[]"
         and v = None and i = "SortModeChange Custom" and storedConfig = None
         and st = "statistics staleState"]
  have k: "js ''constructor'' \<in> set objectPrototypeKeys"
    unfolding t sum.case prod.case by blast
  from w c r d t k u show ?thesis by (intro conjI)
qed

text \<open>
  Claim C8: the code at the failing input. For the language \<open>constructor\<close> and statistics
  that do not track it, \<open>languages[language]\<close> is the inherited
  \<open>Object.prototype.constructor\<close>, no record is created, and the read of
  \<open>languageStats.dates[currentDate]\<close> throws: nothing is counted. For every other input,
  with day counts that are not negative and add up to less than \<open>2^53\<close>, so that the
  additions are exact, the invariant of the claim holds: \<open>recordLanguage_totalsMatch\<close>,
  \<open>cleanup_totalsMatch\<close> and \<open>languageChange_totalsMatch\<close>.
\<close>

theorem languageChange_inherited_name_throws:
  "\<not> isBlank (js ''constructor'')
   \<and> languageChange 1761350400000 1761350400000 (onload None None) (js ''constructor'')
       = Inl (TypeError, onload None None)
   \<and> statistics (onload None None) = \<lparr>frequencyOrder = [], languages = []\<rparr>"
  by code_simp

section \<open>Tokens of the canonicalisation\<close>

lemma set_replaceBacktickSpace:
  "0x20 \<notin> set (replaceBacktickSpace x)" "0x60 \<notin> set (replaceBacktickSpace x)"
  by (auto simp: replaceBacktickSpace_def)

lemma set_replaceAmp: "set (replaceAmp x) \<subseteq> set x \<union> {0x26, 0x61, 0x6D, 0x70, 0x3B}"
  by (auto simp: replaceAmp_def js_def split: if_splits)

lemma set_replaceLt: "set (replaceLt x) \<subseteq> (set x - {0x3C}) \<union> {0x26, 0x6C, 0x74, 0x3B}"
  by (auto simp: replaceLt_def js_def split: if_splits)

lemma set_escapeHtml:
  "set (escapeHtml x) \<subseteq> (set x - {0x3C}) \<union> {0x26, 0x61, 0x6D, 0x70, 0x3B, 0x6C, 0x74}"
proof (cases "x = []")
  case True
  then show ?thesis by (simp add: escapeHtml_def)
next
  case False
  have "set (replaceLt (replaceAmp x)) \<subseteq> (set (replaceAmp x) - {0x3C}) \<union> {0x26, 0x6C, 0x74, 0x3B}"
    by (rule set_replaceLt)
  also have "\<dots> \<subseteq> (set x - {0x3C}) \<union> {0x26, 0x61, 0x6D, 0x70, 0x3B, 0x6C, 0x74}"
    using set_replaceAmp[of x] by auto
  finally show ?thesis using False by (simp add: escapeHtml_def)
qed

lemma parseLanguagesInput_token:
  assumes "t \<in> set (parseLanguagesInput input)"
  shows "0x20 \<notin> set t \<and> 0x60 \<notin> set t \<and> 0x3C \<notin> set t \<and> t \<noteq> []"
proof -
  from assms obtain part where t: "t = escapeHtml (replaceBacktickSpace (trim part))" and ne: "t \<noteq> []"
    by (auto simp: parseLanguagesInput_def Let_def split: option.splits if_splits)
  have "set t \<subseteq> (set (replaceBacktickSpace (trim part)) - {0x3C}) \<union> {0x26, 0x61, 0x6D, 0x70, 0x3B, 0x6C, 0x74}"
    unfolding t by (rule set_escapeHtml)
  with set_replaceBacktickSpace[of "trim part"] have "0x20 \<notin> set t \<and> 0x60 \<notin> set t \<and> 0x3C \<notin> set t"
    by auto
  with ne show ?thesis by simp
qed

section \<open>The keys of an object stay distinct\<close>

lemma obj_keys_obj_update: "obj_keys (obj_update k v m) = obj_keys m"
  by (induction m) (auto simp: obj_keys_def)

lemma distinct_insert_between:
  assumes "distinct (map f (xs @ ys))" "f x \<notin> f ` set (xs @ ys)"
  shows "distinct (map f (xs @ [x] @ ys))"
  using assms by auto

lemma distinct_obj_create:
  assumes "distinct (obj_keys m)" "k \<notin> set (obj_keys m)"
  shows "distinct (obj_keys (obj_create k v m))"
proof (cases "arrayIndex k")
  case None
  with assms show ?thesis by (simp add: obj_create_def obj_keys_def)
next
  case (Some i)
  let ?P = "\<lambda>p::jsstring \<times> 'a. case arrayIndex (fst p) of Some j \<Rightarrow> j < i | None \<Rightarrow> False"
  have "distinct (map fst (takeWhile ?P m @ [(k, v)] @ dropWhile ?P m))"
  proof (rule distinct_insert_between)
    show "distinct (map fst (takeWhile ?P m @ dropWhile ?P m))"
      using assms(1) by (simp add: obj_keys_def del: map_append)
    show "fst (k, v) \<notin> fst ` set (takeWhile ?P m @ dropWhile ?P m)"
      using assms(2) by (simp add: obj_keys_def del: set_append)
  qed
  then show ?thesis
    unfolding obj_create_index[OF Some] obj_keys_def .
qed

lemma distinct_obj_set:
  "distinct (obj_keys m) \<Longrightarrow> distinct (obj_keys (obj_set k v m))"
  by (simp add: obj_set_def obj_keys_obj_update distinct_obj_create)

lemma recordLanguage_distinct:
  assumes "recordLanguage today s language = Inr s1"
      and "distinct (obj_keys (languages (statistics s)))"
  shows "distinct (obj_keys (languages (statistics s1)))"
  unfolding recordLanguage_languages[OF assms(1)] using assms(2) by (rule distinct_obj_set)

lemma cleanup_distinct_keys:
  assumes "cleanupExpiredStatistics now s = Inr s'"
      and "distinct (obj_keys (languages (statistics s)))"
  shows "distinct (obj_keys (languages (statistics s')))"
proof -
  obtain cutoff where c: "cutoffDateString now (config s) = Some cutoff"
    using assms(1) by (cases "cutoffDateString now (config s)") (simp_all add: cleanup_None)
  have "map fst (filter P (map (\<lambda>p. (fst p, f (snd p))) m)) = filter (\<lambda>k. P' k) (map fst m)"
    if "\<And>p. p \<in> set m \<Longrightarrow> P (fst p, f (snd p)) = P' (fst p)"
    for P P' and f :: "LanguageStats \<Rightarrow> LanguageStats" and m :: "LanguageStats obj"
    using that by (induction m) auto
  from this[of "languages (statistics s)"
              "\<lambda>p. fst p \<notin> fst ` {q \<in> set (languages (statistics s)).
                     jsSum (map snd (filter (notExpired cutoff) (dates (snd q)))) = Num 0}"
              "cleanupLanguage cutoff"
              "\<lambda>k. k \<notin> fst ` {q \<in> set (languages (statistics s)).
                     jsSum (map snd (filter (notExpired cutoff) (dates (snd q)))) = Num 0}"]
  have "obj_keys (languages (statistics s'))
          = filter (\<lambda>k. k \<notin> fst ` {q \<in> set (languages (statistics s)).
                     jsSum (map snd (filter (notExpired cutoff) (dates (snd q)))) = Num 0})
              (obj_keys (languages (statistics s)))"
    unfolding cleanup_languages[OF c assms(1)] obj_keys_def by simp
  with assms(2) show ?thesis by simp
qed

lemma languageChange_distinct:
  assumes "languageChange now now' s language = Inr s'"
      and "distinct (obj_keys (languages (statistics s)))"
  shows "distinct (obj_keys (languages (statistics s')))"
proof (cases "isBlank language")
  case True
  with assms(1) have c: "cleanupExpiredStatistics now' s = Inr s'"
    by (auto simp: languageChange_blank split: sum.splits)
  from cleanup_distinct_keys[OF c assms(2)] show ?thesis .
next
  case False
  from languageChange_Inr[OF assms(1) False] obtain today s1 where
    r: "recordLanguage today s language = Inr s1"
    and c: "cleanupExpiredStatistics now' s1 = Inr s'"
    by blast
  from cleanup_distinct_keys[OF c recordLanguage_distinct[OF r assms(2)]] show ?thesis .
qed

section \<open>The key of a recorded selection\<close>

text \<open>
  For a language that is not blank, \<open>languageChange\<close> uses the string of the event
  itself as the key, when it does not throw: the only key it can have added to
  \<open>languages\<close> is that string, and the statistics it saved have that string as a key and
  as an entry of \<open>frequencyOrder\<close>. A string with a space, a backtick or \<open><\<close> is no token
  of \<open>parseLanguagesInput\<close>.
\<close>

lemma languageChange_keys:
  assumes "languageChange now now' s language = Inr s'" "\<not> isBlank language"
  shows "set (obj_keys (languages (statistics s')))
           \<subseteq> insert language (set (obj_keys (languages (statistics s))))"
    and "\<exists>st. savedStatistics s' = Some st
           \<and> language \<in> set (obj_keys (languages st))
           \<and> language \<in> set (frequencyOrder st)"
proof -
  from languageChange_Inr[OF assms] obtain today s1 where
    today: "isoDate now = Some today"
    and r: "recordLanguage today s language = Inr s1"
    and c: "cleanupExpiredStatistics now' s1 = Inr s'"
    by blast
  note k = recordLanguage_keys[OF r]
  show "set (obj_keys (languages (statistics s')))
           \<subseteq> insert language (set (obj_keys (languages (statistics s))))"
    using cleanup_keys_subset[OF c] k(1) by simp
  have "savedStatistics s' = Some (statistics s1)"
    using cleanup_frame(2)[OF c] k(3) by simp
  moreover have "language \<in> set (obj_keys (languages (statistics s1)))"
      "language \<in> set (frequencyOrder (statistics s1))"
    using k(1,2) by simp_all
  ultimately show "\<exists>st. savedStatistics s' = Some st
           \<and> language \<in> set (obj_keys (languages st))
           \<and> language \<in> set (frequencyOrder st)"
    by blast
qed

lemma not_canonical:
  assumes "0x20 \<in> set language \<or> 0x60 \<in> set language \<or> 0x3C \<in> set language"
  shows "language \<notin> set (parseLanguagesInput input)"
  using assms parseLanguagesInput_token by blast

lemma raw_key_example:
  "languageChange 1761350400000 1761350400000 (onload None None) (js '' a<b'')
       = Inr ((onload None None)
           \<lparr>statistics := \<lparr>frequencyOrder = [js '' a<b''],
                languages = [(js '' a<b'', \<lparr>totalCount = Num 1, dates = [(js ''2025-10-25'', 1)]\<rparr>)]\<rparr>,
            savedStatistics := Some \<lparr>frequencyOrder = [js '' a<b''],
                languages = [(js '' a<b'', \<lparr>totalCount = Num 1, dates = [(js ''2025-10-25'', 1)]\<rparr>)]\<rparr>\<rparr>)
   \<and> languageUpdate asciiLowerCase ((onload None None)
           \<lparr>statistics := \<lparr>frequencyOrder = [js '' a<b''],
                languages = [(js '' a<b'', \<lparr>totalCount = Num 1, dates = [(js ''2025-10-25'', 1)]\<rparr>)]\<rparr>,
            savedStatistics := Some \<lparr>frequencyOrder = [js '' a<b''],
                languages = [(js '' a<b'', \<lparr>totalCount = Num 1, dates = [(js ''2025-10-25'', 1)]\<rparr>)]\<rparr>\<rparr>)
         [js ''c''] None = [js '' a<b'', js ''c'']
   \<and> 0x20 \<in> set (js '' a<b'')"
  by code_simp

text \<open>
  Claim C10: the code at the failing input. The event's language \<open>toString\<close> is not
  blank, and the statistics track rust and go. \<open>languages["toString"]\<close> is the inherited
  \<open>Object.prototype.toString\<close>, so the handler throws before it writes: the statistics
  are not keyed by the selected string, nothing is saved, and the state is as it was.
  It is the defect of claim C8. For every other event the key is the raw string:
  \<open>languageChange_keys\<close>, \<open>not_canonical\<close> and \<open>raw_key_example\<close>.
\<close>

theorem languageChange_inherited_name_not_keyed:
  "\<not> isBlank (js ''toString'')
   \<and> languageChange 1761350400000 1761350400000 frequencyState (js ''toString'')
       = Inl (TypeError, frequencyState)
   \<and> obj_keys (languages (statistics frequencyState)) = [js ''rust'', js ''go'']
   \<and> frequencyOrder (statistics frequencyState) = [js ''rust'', js ''go'']
   \<and> savedStatistics frequencyState = None"
  by code_simp

end
